theory Spec2Isabelle
  imports Main "HOL-Library.Word" "HOL-Library.Multiset" "HOL-Library.AList"
begin

section \<open>Shared data model\<close>

text \<open>
  The proxy's processors talk to their collaborators (the base processor, the public key
  converter, the marshalizer, the hasher, the logs merger) through Go interfaces. Each
  interface method the modelled code calls is a function-valued field of a record; what
  such a method answers is not fixed here, so every theorem holds for all collaborators.
  A Go \<open>error\<close> result is a value of the datatype \<open>error\<close>; the pair \<open>(value, error)\<close> a
  method returns is a sum with \<open>Inl\<close> for the error.
\<close>

type_synonym byte = "8 word"

datatype error =
    ErrSendingRequest
  | ErrMissingObserver
  | ErrNoValidTransactionToSend
  | ErrInvalidTransactionValueField
  | ErrInvalidAddress
  | ErrInvalidSignatureBytes
  | ErrInvalidSenderAddress
  | ErrInvalidReceiverAddress
  | ErrInvalidSignatureHex
  | ErrOperationNotAllowed
  | ErrTransactionsNotFoundInPool
  | InvalidByteError char
  | ErrLength
  | External string
  | ErrInvalidTxFields message message
and message =
    ErrorText error
  | Literal string

text \<open>
  \<open>External s\<close> is an error made by a collaborator, with its text. \<open>ErrInvalidTxFields\<close>
  carries the struct's \<open>Message\<close> and \<open>Reason\<close>; \<open>ErrorText e\<close> is the string \<open>e.Error()\<close>
  of an error whose text is declared outside the modelled files.
\<close>

abbreviation StatusOK :: int where "StatusOK \<equiv> 200"
abbreviation StatusBadRequest :: int where "StatusBadRequest \<equiv> 400"
abbreviation StatusNotFound :: int where "StatusNotFound \<equiv> 404"
abbreviation StatusRequestTimeout :: int where "StatusRequestTimeout \<equiv> 408"
abbreviation StatusTooManyRequests :: int where "StatusTooManyRequests \<equiv> 429"
abbreviation StatusInternalServerError :: int where "StatusInternalServerError \<equiv> 500"

record NodeData =
  Address :: string
  ShardId :: "32 word"

record Transaction =
  Nonce :: "64 word"
  Value :: string
  Receiver :: string
  Sender :: string
  GasPrice :: "64 word"
  GasLimit :: "64 word"
  Data :: "byte list"
  Signature :: string
  ChainID :: string
  Version :: "32 word"
  Index :: int

subsection \<open>Go standard library: \<open>encoding/hex\<close>\<close>

definition fromHexChar :: "char \<Rightarrow> nat option" where
  "fromHexChar c =
     (let n = (of_char c :: nat) in
      if 48 \<le> n \<and> n \<le> 57 then Some (n - 48)
      else if 97 \<le> n \<and> n \<le> 102 then Some (n - 87)
      else if 65 \<le> n \<and> n \<le> 70 then Some (n - 55)
      else None)"

text \<open>
  \<open>hex.DecodeString\<close>: pairs of hexadecimal digits, read left to right; the first bad
  character is reported, a single trailing digit is \<open>ErrLength\<close>. The empty string
  decodes to no bytes.
\<close>

fun hex_DecodeString :: "string \<Rightarrow> error + byte list" where
  "hex_DecodeString [] = Inr []"
| "hex_DecodeString [p] =
     (case fromHexChar p of None \<Rightarrow> Inl (InvalidByteError p) | Some a \<Rightarrow> Inl ErrLength)"
| "hex_DecodeString (p # q # rest) =
     (case fromHexChar p of
        None \<Rightarrow> Inl (InvalidByteError p)
      | Some a \<Rightarrow>
          (case fromHexChar q of
             None \<Rightarrow> Inl (InvalidByteError q)
           | Some b \<Rightarrow>
               (case hex_DecodeString rest of
                  Inl e \<Rightarrow> Inl e
                | Inr bs \<Rightarrow> Inr (of_nat (a * 16 + b) # bs))))"

definition hexDigit :: "nat \<Rightarrow> char" where
  "hexDigit n = (if n < 10 then char_of (48 + n) else char_of (87 + n))"

fun hex_EncodeToString :: "byte list \<Rightarrow> string" where
  "hex_EncodeToString [] = []"
| "hex_EncodeToString (b # bs) =
     hexDigit (unat b div 16) # hexDigit (unat b mod 16) # hex_EncodeToString bs"

subsection \<open>Go standard library: \<open>math/big\<close>\<close>

definition digitOf :: "char \<Rightarrow> nat option" where
  "digitOf c =
     (let n = (of_char c :: nat) in if 48 \<le> n \<and> n \<le> 57 then Some (n - 48) else None)"

fun scanDigits :: "nat \<Rightarrow> string \<Rightarrow> nat option" where
  "scanDigits acc [] = Some acc"
| "scanDigits acc (c # cs) =
     (case digitOf c of None \<Rightarrow> None | Some d \<Rightarrow> scanDigits (acc * 10 + d) cs)"

text \<open>
  \<open>big.NewInt(0).SetString(s, 10)\<close>: an optional sign, then at least one decimal digit,
  and nothing else. A \<open>*big.Int\<close> is an \<open>int option\<close>, \<open>None\<close> the nil pointer that
  \<open>SetString\<close> returns when the string is not a number.
\<close>

definition SetString10 :: "string \<Rightarrow> int option" where
  "SetString10 s =
     (case s of
        [] \<Rightarrow> None
      | c # cs \<Rightarrow>
          if c = CHR ''-'' then
            (if cs = [] then None else map_option (\<lambda>n. - int n) (scanDigits 0 cs))
          else if c = CHR ''+'' then
            (if cs = [] then None else map_option int (scanDigits 0 cs))
          else map_option int (scanDigits 0 s))"

fun natString :: "nat \<Rightarrow> string" where
  "natString n =
     (if n < 10 then [char_of (48 + n)]
      else natString (n div 10) @ [char_of (48 + n mod 10)])"

declare natString.simps [simp del]

definition bigInt_String :: "int \<Rightarrow> string" where
  "bigInt_String i = (if i < 0 then CHR ''-'' # natString (nat (- i)) else natString (nat i))"

section \<open>The transaction processor\<close>

text \<open>
  \<open>proc.CallPostRestEndPoint\<close> and \<open>proc.CallGetRestEndPoint\<close> are generic over the
  request and the response; each endpoint the processor uses is a field with the types
  of that endpoint. A call answers \<open>(respCode, err, decoded response)\<close>. What the
  observers answer during one operation is a function of the observer's address and the
  request, and every operation returns, with its result, the addresses it called, in
  order.
\<close>

text \<open>
  \<open>transaction.Transaction\<close>, the struct that is marshalled and hashed. Its \<open>Value\<close> is a
  \<open>*big.Int\<close> that is never nil where the struct is built.
\<close>

record regularTransaction =
  txNonce :: "64 word"
  txValue :: int
  txRcvAddr :: "byte list"
  txSndAddr :: "byte list"
  txGasPrice :: "64 word"
  txGasLimit :: "64 word"
  txData :: "byte list"
  txChainID :: string
  txVersion :: "32 word"
  txSignature :: "byte list"

record ('l, 'p) TransactionProcessor =
  pubKeyConverter_Decode :: "string \<Rightarrow> error + byte list"
  proc_ComputeShardId :: "byte list \<Rightarrow> error + 32 word"
  proc_GetObservers :: "32 word \<Rightarrow> error + NodeData list"
  proc_GetFullHistoryNodes :: "32 word \<Rightarrow> error + NodeData list"
  proc_PostTransactionSend :: "string \<Rightarrow> Transaction \<Rightarrow> int \<times> error option \<times> string"
  proc_PostMultipleTransactions ::
    "string \<Rightarrow> Transaction list \<Rightarrow> int \<times> error option \<times> 64 word \<times> (int \<times> string) list"
  proc_GetTransactionsPool :: "string \<Rightarrow> string \<Rightarrow> int \<times> error option \<times> 'p"
  marshalizer_Marshal :: "regularTransaction \<Rightarrow> error + byte list"
  hasher_Compute :: "byte list \<Rightarrow> byte list"
  mergeLogsHandler_MergeLogEvents :: "'l \<Rightarrow> 'l \<Rightarrow> 'l"
  shouldAllowEntireTxPoolFetch :: bool

subsection \<open>\<open>checkTransactionFields\<close>\<close>

definition checkTransactionFields :: "('l, 'p) TransactionProcessor \<Rightarrow> Transaction \<Rightarrow> error option" where
  "checkTransactionFields tp tx =
     (case pubKeyConverter_Decode tp (Sender tx) of
        Inl err \<Rightarrow> Some (ErrInvalidTxFields (ErrorText ErrInvalidSenderAddress) (ErrorText err))
      | Inr _ \<Rightarrow>
     (case pubKeyConverter_Decode tp (Receiver tx) of
        Inl err \<Rightarrow> Some (ErrInvalidTxFields (ErrorText ErrInvalidReceiverAddress) (ErrorText err))
      | Inr _ \<Rightarrow>
     if ChainID tx = '''' then
       Some (ErrInvalidTxFields (Literal ''transaction must contain chainID'') (Literal ''no chainID''))
     else if Version tx = 0 then
       Some (ErrInvalidTxFields (Literal ''transaction must contain version'') (Literal ''no version''))
     else
     (case hex_DecodeString (Signature tx) of
        Inl err \<Rightarrow> Some (ErrInvalidTxFields (ErrorText ErrInvalidSignatureHex) (ErrorText err))
      | Inr _ \<Rightarrow> None)))"

subsection \<open>\<open>SendTransaction\<close>\<close>

text \<open>
  The loop over the observers of the sender's shard. The second component of the result
  is the list of the addresses called.
\<close>

fun sendToObservers ::
  "(string \<Rightarrow> Transaction \<Rightarrow> int \<times> error option \<times> string) \<Rightarrow> Transaction \<Rightarrow> NodeData list
     \<Rightarrow> (int \<times> string \<times> error option) \<times> string list" where
  "sendToObservers post tx [] = ((StatusInternalServerError, '''', Some ErrSendingRequest), [])"
| "sendToObservers post tx (observer # observers) =
     (case post (Address observer) tx of
        (respCode, err, txHash) \<Rightarrow>
          if respCode = StatusOK \<and> err = None then ((respCode, txHash, None), [Address observer])
          else if respCode = StatusNotFound \<or> respCode = StatusRequestTimeout then
            (case sendToObservers post tx observers of
               (res, calls) \<Rightarrow> (res, Address observer # calls))
          else ((respCode, '''', err), [Address observer]))"

definition SendTransaction ::
  "('l, 'p) TransactionProcessor \<Rightarrow> Transaction \<Rightarrow> (int \<times> string \<times> error option) \<times> string list" where
  "SendTransaction tp tx =
     (case checkTransactionFields tp tx of
        Some err \<Rightarrow> ((StatusBadRequest, '''', Some err), [])
      | None \<Rightarrow>
     (case pubKeyConverter_Decode tp (Sender tx) of
        Inl err \<Rightarrow> ((StatusBadRequest, '''', Some err), [])
      | Inr senderBuff \<Rightarrow>
     (case proc_ComputeShardId tp senderBuff of
        Inl err \<Rightarrow> ((StatusInternalServerError, '''', Some err), [])
      | Inr shardID \<Rightarrow>
     (case proc_GetObservers tp shardID of
        Inl err \<Rightarrow> ((StatusInternalServerError, '''', Some err), [])
      | Inr observers \<Rightarrow> sendToObservers (proc_PostTransactionSend tp) tx observers))))"

subsection \<open>\<open>SendMultipleTransactions\<close>\<close>

text \<open>
  A function that can panic returns an \<open>outcome\<close>: \<open>Panicked\<close> for the run-time panic
  (an index out of range, a nil pointer dereference), \<open>Returned\<close> with what it returns
  otherwise.
\<close>

datatype 'a outcome = Returned 'a | Panicked

record MultipleTransactionsResponseData =
  NumOfTxs :: "64 word"
  TxsHashes :: "int \<rightharpoonup> string"

text \<open>The first loop: the transactions that pass \<open>checkTransactionFields\<close>, in order.\<close>

fun txsToSendOf :: "('l, 'p) TransactionProcessor \<Rightarrow> Transaction list \<Rightarrow> Transaction list" where
  "txsToSendOf tp [] = []"
| "txsToSendOf tp (currentTx # txs) =
     (case checkTransactionFields tp currentTx of
        Some err \<Rightarrow> txsToSendOf tp txs
      | None \<Rightarrow> currentTx # txsToSendOf tp txs)"

text \<open>
  \<open>groupTxsByShard\<close>. The Go map from shard to slice is an association list with one
  entry for each shard, in the order the shards first occur; reading a missing shard
  gives the nil slice. \<open>idx\<close> is the position in the list the function was given.
  The transactions are values here: the request's transactions are separate objects.
\<close>

definition txsOfShard :: "(32 word \<times> Transaction list) list \<Rightarrow> 32 word \<Rightarrow> Transaction list" where
  "txsOfShard txsMap shardID = (case map_of txsMap shardID of None \<Rightarrow> [] | Some g \<Rightarrow> g)"

fun groupTxsByShardFrom ::
  "('l, 'p) TransactionProcessor \<Rightarrow> nat \<Rightarrow> Transaction list
     \<Rightarrow> (32 word \<times> Transaction list) list \<Rightarrow> (32 word \<times> Transaction list) list" where
  "groupTxsByShardFrom tp idx [] txsMap = txsMap"
| "groupTxsByShardFrom tp idx (tx # txs) txsMap =
     (case pubKeyConverter_Decode tp (Sender tx) of
        Inl err \<Rightarrow> groupTxsByShardFrom tp (Suc idx) txs txsMap
      | Inr senderBytes \<Rightarrow>
     (case proc_ComputeShardId tp senderBytes of
        Inl err \<Rightarrow> groupTxsByShardFrom tp (Suc idx) txs txsMap
      | Inr senderShardID \<Rightarrow>
          groupTxsByShardFrom tp (Suc idx) txs
            (AList.update senderShardID
               (txsOfShard txsMap senderShardID @ [tx\<lparr>Index := int idx\<rparr>]) txsMap)))"

definition groupTxsByShard ::
  "('l, 'p) TransactionProcessor \<Rightarrow> Transaction list \<Rightarrow> (32 word \<times> Transaction list) list" where
  "groupTxsByShard tp txs = groupTxsByShardFrom tp 0 txs []"

text \<open>
  The loop over the hashes of an observer's answer: \<open>groupOfTxs[key]\<close> panics when the
  key is not an index of the group (\<open>None\<close> here).
\<close>

fun storeTxsHashes ::
  "Transaction list \<Rightarrow> (int \<times> string) list \<Rightarrow> (int \<rightharpoonup> string) \<Rightarrow> (int \<rightharpoonup> string) option" where
  "storeTxsHashes groupOfTxs [] txsHashes = Some txsHashes"
| "storeTxsHashes groupOfTxs ((key, hash) # rest) txsHashes =
     (if 0 \<le> key \<and> key < int (length groupOfTxs) then
        storeTxsHashes groupOfTxs rest (txsHashes(Index (groupOfTxs ! nat key) \<mapsto> hash))
      else None)"

text \<open>
  The loop over the observers of one shard: the first observer that answers 200 with no
  error ends it; every other answer is logged and the next observer is tried. When no
  observer is left the counters are as they were.
\<close>

fun sendGroupToObservers ::
  "(string \<Rightarrow> Transaction list \<Rightarrow> int \<times> error option \<times> 64 word \<times> (int \<times> string) list)
     \<Rightarrow> Transaction list \<Rightarrow> NodeData list \<Rightarrow> 64 word \<times> (int \<rightharpoonup> string)
     \<Rightarrow> (64 word \<times> (int \<rightharpoonup> string)) option \<times> string list" where
  "sendGroupToObservers post groupOfTxs [] acc = (Some acc, [])"
| "sendGroupToObservers post groupOfTxs (observer # observers) acc =
     (case post (Address observer) groupOfTxs of
        (respCode, err, numOfTxs, hashes) \<Rightarrow>
          if respCode = StatusOK \<and> err = None then
            (case storeTxsHashes groupOfTxs hashes (snd acc) of
               None \<Rightarrow> (None, [Address observer])
             | Some txsHashes \<Rightarrow> (Some (fst acc + numOfTxs, txsHashes), [Address observer]))
          else
            (case sendGroupToObservers post groupOfTxs observers acc of
               (res, calls) \<Rightarrow> (res, Address observer # calls)))"

fun sendGroups ::
  "('l, 'p) TransactionProcessor \<Rightarrow> (32 word \<times> Transaction list) list
     \<Rightarrow> 64 word \<times> (int \<rightharpoonup> string)
     \<Rightarrow> (error + MultipleTransactionsResponseData) outcome \<times> string list" where
  "sendGroups tp [] acc = (Returned (Inr \<lparr>NumOfTxs = fst acc, TxsHashes = snd acc\<rparr>), [])"
| "sendGroups tp ((shardID, groupOfTxs) # groups) acc =
     (case proc_GetObservers tp shardID of
        Inl err \<Rightarrow> (Returned (Inl ErrMissingObserver), [])
      | Inr observersInShard \<Rightarrow>
          (case sendGroupToObservers (proc_PostMultipleTransactions tp) groupOfTxs
                  observersInShard acc of
             (None, calls) \<Rightarrow> (Panicked, calls)
           | (Some acc', calls) \<Rightarrow>
               (case sendGroups tp groups acc' of (res, calls') \<Rightarrow> (res, calls @ calls'))))"

text \<open>
  Go ranges over a map in an order it does not specify; \<open>rangeOrder\<close> is the order this
  run takes, a rearrangement of the map's entries.
\<close>

definition SendMultipleTransactions ::
  "('l, 'p) TransactionProcessor
     \<Rightarrow> ((32 word \<times> Transaction list) list \<Rightarrow> (32 word \<times> Transaction list) list)
     \<Rightarrow> Transaction list
     \<Rightarrow> (error + MultipleTransactionsResponseData) outcome \<times> string list" where
  "SendMultipleTransactions tp rangeOrder txs =
     (let txsToSend = txsToSendOf tp txs in
      if length txsToSend = 0 then (Returned (Inl ErrNoValidTransactionToSend), [])
      else sendGroups tp (rangeOrder (groupTxsByShard tp txsToSend)) (0, Map.empty))"

text \<open>
  Two descriptions used to state what the grouping does: the shard \<open>groupTxsByShard\<close>
  computes for a transaction (none when the sender does not decode or its shard cannot
  be computed), and the transactions of a list that belong to a shard, in order, each
  with its \<open>Index\<close> set to its position in that list, counted from \<open>idx\<close>.
\<close>

definition senderShardOf :: "('l, 'p) TransactionProcessor \<Rightarrow> Transaction \<Rightarrow> 32 word option" where
  "senderShardOf tp tx =
     (case pubKeyConverter_Decode tp (Sender tx) of
        Inl err \<Rightarrow> None
      | Inr senderBytes \<Rightarrow>
          (case proc_ComputeShardId tp senderBytes of
             Inl err \<Rightarrow> None
           | Inr senderShardID \<Rightarrow> Some senderShardID))"

definition indexedOfShard ::
  "('l, 'p) TransactionProcessor \<Rightarrow> 32 word \<Rightarrow> nat \<Rightarrow> Transaction list \<Rightarrow> Transaction list" where
  "indexedOfShard tp shardID idx txs =
     map (\<lambda>(i, tx). tx\<lparr>Index := int i\<rparr>)
       (filter (\<lambda>(i, tx). senderShardOf tp tx = Some shardID) (enumerate idx txs))"

subsection \<open>Merging the smart contract results of the two shards\<close>

text \<open>
  Of \<open>transaction.ApiSmartContractResult\<close> and \<open>transaction.ApiTransactionResult\<close> the
  code reads the hash, the logs and the list of results; the other fields are carried
  along in one field each.
\<close>

record ('l, 'c) ApiSmartContractResult =
  Hash :: string
  Logs :: 'l
  scrFields :: 'c

record ('l, 'c, 't) ApiTransactionResult =
  SmartContractResults :: "('l, 'c) ApiSmartContractResult list"
  txFields :: 't

fun scResultsHashOf ::
  "('l \<Rightarrow> 'l \<Rightarrow> 'l) \<Rightarrow> ('l, 'c) ApiSmartContractResult list
     \<Rightarrow> (string \<times> ('l, 'c) ApiSmartContractResult) list
     \<Rightarrow> (string \<times> ('l, 'c) ApiSmartContractResult) list" where
  "scResultsHashOf mergeLogEvents [] scResultsHash = scResultsHash"
| "scResultsHashOf mergeLogEvents (scResult # scResults) scResultsHash =
     (case map_of scResultsHash (Hash scResult) of
        None \<Rightarrow>
          scResultsHashOf mergeLogEvents scResults
            (AList.update (Hash scResult) scResult scResultsHash)
      | Some scResultFromMap \<Rightarrow>
          scResultsHashOf mergeLogEvents scResults
            (AList.update (Hash scResult)
               (scResult\<lparr>Logs := mergeLogEvents (Logs scResultFromMap) (Logs scResult)\<rparr>)
               scResultsHash))"

definition getScResultsUnion ::
  "('l, 'p) TransactionProcessor
     \<Rightarrow> ((string \<times> ('l, 'c) ApiSmartContractResult) list
          \<Rightarrow> (string \<times> ('l, 'c) ApiSmartContractResult) list)
     \<Rightarrow> ('l, 'c) ApiSmartContractResult list \<Rightarrow> ('l, 'c) ApiSmartContractResult list" where
  "getScResultsUnion tp rangeOrder scResults =
     map snd (rangeOrder (scResultsHashOf (mergeLogsHandler_MergeLogEvents tp) scResults []))"

definition mergeScResultsFromSourceAndDestIfNeeded ::
  "('l, 'p) TransactionProcessor
     \<Rightarrow> ((string \<times> ('l, 'c) ApiSmartContractResult) list
          \<Rightarrow> (string \<times> ('l, 'c) ApiSmartContractResult) list)
     \<Rightarrow> ('l, 'c, 't) ApiTransactionResult \<Rightarrow> ('l, 'c, 't) ApiTransactionResult \<Rightarrow> bool
     \<Rightarrow> ('l, 'c, 't) ApiTransactionResult" where
  "mergeScResultsFromSourceAndDestIfNeeded tp rangeOrder sourceTx destTx withEvents =
     (if \<not> withEvents then destTx
      else destTx\<lparr>SmartContractResults :=
             getScResultsUnion tp rangeOrder
               (SmartContractResults sourceTx @ SmartContractResults destTx)\<rparr>)"

subsection \<open>\<open>ComputeTransactionHash\<close>\<close>

text \<open>
  \<open>core.CalculateHash\<close> of the core library marshals the object and hashes the bytes; it
  fails when the marshalizer fails.
\<close>

definition core_CalculateHash ::
  "('l, 'p) TransactionProcessor \<Rightarrow> regularTransaction \<Rightarrow> error + byte list" where
  "core_CalculateHash tp object =
     (case marshalizer_Marshal tp object of
        Inl err \<Rightarrow> Inl err
      | Inr mrsData \<Rightarrow> Inr (hasher_Compute tp mrsData))"

definition ComputeTransactionHash ::
  "('l, 'p) TransactionProcessor \<Rightarrow> Transaction \<Rightarrow> string \<times> error option" where
  "ComputeTransactionHash tp tx =
     (case SetString10 (Value tx) of
        None \<Rightarrow> ('''', Some ErrInvalidTransactionValueField)
      | Some valueBig \<Rightarrow>
     (case pubKeyConverter_Decode tp (Receiver tx) of
        Inl err \<Rightarrow> ('''', Some ErrInvalidAddress)
      | Inr receiverAddress \<Rightarrow>
     (case pubKeyConverter_Decode tp (Sender tx) of
        Inl err \<Rightarrow> ('''', Some ErrInvalidAddress)
      | Inr senderAddress \<Rightarrow>
     (case hex_DecodeString (Signature tx) of
        Inl err \<Rightarrow> ('''', Some ErrInvalidSignatureBytes)
      | Inr signatureBytes \<Rightarrow>
     (case core_CalculateHash tp
             \<lparr>txNonce = Nonce tx, txValue = valueBig, txRcvAddr = receiverAddress,
              txSndAddr = senderAddress, txGasPrice = GasPrice tx, txGasLimit = GasLimit tx,
              txData = Data tx, txChainID = ChainID tx, txVersion = Version tx,
              txSignature = signatureBytes\<rparr> of
        Inl err \<Rightarrow> ('''', None)
      | Inr txHash \<Rightarrow> (hex_EncodeToString txHash, None))))))"

subsection \<open>The transactions pool of one shard\<close>

datatype requestType = requestTypeObservers | requestTypeFullHistoryNodes

definition TransactionsPoolPath :: string where
  "TransactionsPoolPath = ''/transaction/pool''"

definition fieldsParam :: string where
  "fieldsParam = ''?poolFields=''"

definition getNodesInShard ::
  "('l, 'p) TransactionProcessor \<Rightarrow> 32 word \<Rightarrow> requestType \<Rightarrow> error + NodeData list" where
  "getNodesInShard tp shardID reqType =
     (case (if reqType = requestTypeFullHistoryNodes
            then (case proc_GetFullHistoryNodes tp shardID of
                    Inr fullHistoryNodes \<Rightarrow>
                      if length fullHistoryNodes > 0 then Some fullHistoryNodes else None
                  | Inl err \<Rightarrow> None)
            else None) of
        Some fullHistoryNodes \<Rightarrow> Inr fullHistoryNodes
      | None \<Rightarrow> proc_GetObservers tp shardID)"

definition getTxPoolFromObserver ::
  "('l, 'p) TransactionProcessor \<Rightarrow> NodeData \<Rightarrow> string \<Rightarrow> 'p option" where
  "getTxPoolFromObserver tp observer poolFields =
     (case proc_GetTransactionsPool tp (Address observer)
             (TransactionsPoolPath @ fieldsParam @ poolFields) of
        (respCode, err, txsPool) \<Rightarrow>
          if err \<noteq> None then None
          else if respCode \<noteq> StatusOK then None
          else Some txsPool)"

fun getTxPoolFromObservers ::
  "('l, 'p) TransactionProcessor \<Rightarrow> NodeData list \<Rightarrow> string \<Rightarrow> (error + 'p) \<times> string list" where
  "getTxPoolFromObservers tp [] poolFields = (Inl ErrTransactionsNotFoundInPool, [])"
| "getTxPoolFromObservers tp (observer # observers) poolFields =
     (case getTxPoolFromObserver tp observer poolFields of
        None \<Rightarrow>
          (case getTxPoolFromObservers tp observers poolFields of
             (res, calls) \<Rightarrow> (res, Address observer # calls))
      | Some txs \<Rightarrow> (Inr txs, [Address observer]))"

definition getTxPoolForShard ::
  "('l, 'p) TransactionProcessor \<Rightarrow> 32 word \<Rightarrow> string \<Rightarrow> (error + 'p) \<times> string list" where
  "getTxPoolForShard tp shardID poolFields =
     (case getNodesInShard tp shardID requestTypeObservers of
        Inl err \<Rightarrow> (Inl err, [])
      | Inr observers \<Rightarrow> getTxPoolFromObservers tp observers poolFields)"

definition GetTransactionsPoolForShard ::
  "('l, 'p) TransactionProcessor \<Rightarrow> 32 word \<Rightarrow> string \<Rightarrow> (error + 'p) \<times> string list" where
  "GetTransactionsPoolForShard tp shardID poolFields =
     (if \<not> shouldAllowEntireTxPoolFetch tp then (Inl ErrOperationNotAllowed, [])
      else (case getTxPoolForShard tp shardID poolFields of
              (Inl err, calls) \<Rightarrow> (Inl err, calls)
            | (Inr txPool, calls) \<Rightarrow> (Inr txPool, calls)))"

section \<open>The ESDT supplies processor\<close>

definition esdtContractAddress :: string where
  "esdtContractAddress = ''erd1qqqqqqqqqqqqqqqpqqqqqqqqqqqqqqqqqqqqqqqqqqqqqqqzllls8a5w6u''"

definition initialESDTSupplyFunc :: string where
  "initialESDTSupplyFunc = ''getTokenProperties''"

definition networkESDTSupplyPath :: string where
  "networkESDTSupplyPath = ''/network/esdt/supply/''"

text \<open>
  Modelled from the spec: \<open>core.MetachainShardId\<close> is declared in the core library, not in
  the modelled files; the metachain's shard ID is the largest unsigned 32-bit value.
\<close>

definition MetachainShardId :: "32 word" where
  "MetachainShardId = - 1"

record SCQuery =
  ScAddress :: string
  FuncName :: string
  Arguments :: "string list"

text \<open>
  The GET of the supply endpoint answers \<open>(respCode, err, responseEsdtSupply.Data.Supply)\<close>;
  the query service answers the \<open>ReturnData\<close> of the result, or an error.
\<close>

record esdtSuppliesProcessor =
  baseProc_GetShardIDs :: "32 word list"
  baseProc_GetObservers :: "32 word \<Rightarrow> error + NodeData list"
  baseProc_CallGetRestEndPoint :: "string \<Rightarrow> string \<Rightarrow> int \<times> error option \<times> string"
  scQueryProc_ExecuteQuery :: "SCQuery \<Rightarrow> error + string list"

text \<open>\<open>strings.Split\<close> with a separator of one character.\<close>

fun strings_Split :: "string \<Rightarrow> char \<Rightarrow> string list" where
  "strings_Split [] sep = [[]]"
| "strings_Split (c # cs) sep =
     (if c = sep then [] # strings_Split cs sep
      else (case strings_Split cs sep of
              [] \<Rightarrow> [[c]]
            | part # parts \<Rightarrow> (c # part) # parts))"

definition isFungibleESDT :: "string \<Rightarrow> bool" where
  "isFungibleESDT tokenIdentifier = (length (strings_Split tokenIdentifier CHR ''-'') < 3)"

text \<open>
  The loop of \<open>getShardSupply\<close> over the observers of the shard. The result is the
  \<open>*big.Int\<close> it returns: \<open>None\<close> is the nil pointer.
\<close>

fun shardSupplyFromObservers ::
  "esdtSuppliesProcessor \<Rightarrow> string \<Rightarrow> NodeData list \<Rightarrow> error + int option" where
  "shardSupplyFromObservers esp apiPath [] = Inl ErrSendingRequest"
| "shardSupplyFromObservers esp apiPath (observer # observers) =
     (case baseProc_CallGetRestEndPoint esp (Address observer) apiPath of
        (respCode, errGet, supply) \<Rightarrow>
          if errGet \<noteq> None then shardSupplyFromObservers esp apiPath observers
          else if supply = '''' then Inr (Some 0)
          else Inr (SetString10 supply))"

definition getShardSupply :: "esdtSuppliesProcessor \<Rightarrow> string \<Rightarrow> 32 word \<Rightarrow> error + int option" where
  "getShardSupply esp token shardID =
     (case baseProc_GetObservers esp shardID of
        Inl errObs \<Rightarrow> Inl errObs
      | Inr shardObservers \<Rightarrow>
          shardSupplyFromObservers esp (networkESDTSupplyPath @ token) shardObservers)"

text \<open>
  The loop of \<open>getSupplyFromShards\<close>. \<open>totalSupply.Add(totalSupply, supply)\<close> reads
  through \<open>supply\<close>: it panics on the nil pointer.
\<close>

fun supplyFromShards ::
  "esdtSuppliesProcessor \<Rightarrow> string \<Rightarrow> 32 word list \<Rightarrow> int \<Rightarrow> (error + int) outcome" where
  "supplyFromShards esp token [] totalSupply = Returned (Inr totalSupply)"
| "supplyFromShards esp token (shardID # shardIDs) totalSupply =
     (if shardID = MetachainShardId then supplyFromShards esp token shardIDs totalSupply
      else (case getShardSupply esp token shardID of
              Inl err \<Rightarrow> Returned (Inl err)
            | Inr None \<Rightarrow> Panicked
            | Inr (Some supply) \<Rightarrow> supplyFromShards esp token shardIDs (totalSupply + supply)))"

definition getSupplyFromShards :: "esdtSuppliesProcessor \<Rightarrow> string \<Rightarrow> (error + int) outcome" where
  "getSupplyFromShards esp tokenIdentifier =
     supplyFromShards esp tokenIdentifier (baseProc_GetShardIDs esp) 0"

definition getInitialSupplyFromMeta :: "esdtSuppliesProcessor \<Rightarrow> string \<Rightarrow> error + int option" where
  "getInitialSupplyFromMeta esp token =
     (case scQueryProc_ExecuteQuery esp
             \<lparr>ScAddress = esdtContractAddress, FuncName = initialESDTSupplyFunc,
              Arguments = [token]\<rparr> of
        Inl err \<Rightarrow> Inl err
      | Inr returnData \<Rightarrow>
          if length returnData < 4 then Inr (Some 0)
          else Inr (SetString10 (returnData ! 3)))"

text \<open>The result is the \<open>Data.Supply\<close> of the response.\<close>

definition GetESDTSupply :: "esdtSuppliesProcessor \<Rightarrow> string \<Rightarrow> (error + string) outcome" where
  "GetESDTSupply esp tokenIdentifier =
     (case getSupplyFromShards esp tokenIdentifier of
        Panicked \<Rightarrow> Panicked
      | Returned (Inl err) \<Rightarrow> Returned (Inl err)
      | Returned (Inr totalSupply) \<Rightarrow>
          if \<not> isFungibleESDT tokenIdentifier then Returned (Inr (bigInt_String totalSupply))
          else (case getInitialSupplyFromMeta esp tokenIdentifier of
                  Inl err \<Rightarrow> Returned (Inl err)
                | Inr None \<Rightarrow> Panicked
                | Inr (Some initialSupply) \<Rightarrow>
                    Returned (Inr (bigInt_String (totalSupply + initialSupply)))))"

section \<open>Concrete collaborators\<close>

text \<open>
  A processor with given observers and given answers: an address decodes to its bytes
  unless it is empty, and the shard of an address is the parity of its length.
\<close>

definition exampleTx :: Transaction where
  "exampleTx =
     \<lparr>Nonce = 7, Value = ''1000'', Receiver = ''bob'', Sender = ''alice'', GasPrice = 1,
      GasLimit = 50000, Data = [], Signature = ''0a1b'', ChainID = ''T'', Version = 1,
      Index = 0\<rparr>"

definition exampleDecode :: "string \<Rightarrow> error + byte list" where
  "exampleDecode s = (if s = '''' then Inl (External ''empty address'') else Inr (map of_char s))"

definition exampleShard :: "byte list \<Rightarrow> error + 32 word" where
  "exampleShard b = Inr (if even (length b) then 0 else 1)"

definition exampleProcessor ::
  "(32 word \<Rightarrow> error + NodeData list)
     \<Rightarrow> (string \<Rightarrow> Transaction \<Rightarrow> int \<times> error option \<times> string)
     \<Rightarrow> (string \<Rightarrow> Transaction list \<Rightarrow> int \<times> error option \<times> 64 word \<times> (int \<times> string) list)
     \<Rightarrow> (regularTransaction \<Rightarrow> error + byte list)
     \<Rightarrow> (nat list, unit) TransactionProcessor" where
  "exampleProcessor observers send sendMultiple marshal =
     \<lparr>pubKeyConverter_Decode = exampleDecode,
      proc_ComputeShardId = exampleShard,
      proc_GetObservers = observers,
      proc_GetFullHistoryNodes = (\<lambda>shardID. Inr []),
      proc_PostTransactionSend = send,
      proc_PostMultipleTransactions = sendMultiple,
      proc_GetTransactionsPool = (\<lambda>address path. (StatusOK, None, ())),
      marshalizer_Marshal = marshal,
      hasher_Compute = rev,
      mergeLogsHandler_MergeLogEvents = (\<lambda>a b. a @ b),
      shouldAllowEntireTxPoolFetch = False\<rparr>"

definition twoObservers :: "32 word \<Rightarrow> error + NodeData list" where
  "twoObservers shardID =
     Inr [\<lparr>Address = ''observer1'', ShardId = shardID\<rparr>,
          \<lparr>Address = ''observer2'', ShardId = shardID\<rparr>]"

definition threeObservers :: "32 word \<Rightarrow> error + NodeData list" where
  "threeObservers shardID =
     Inr [\<lparr>Address = ''observer1'', ShardId = shardID\<rparr>,
          \<lparr>Address = ''observer2'', ShardId = shardID\<rparr>,
          \<lparr>Address = ''observer3'', ShardId = shardID\<rparr>]"

definition noMultiple ::
  "string \<Rightarrow> Transaction list \<Rightarrow> int \<times> error option \<times> 64 word \<times> (int \<times> string) list" where
  "noMultiple address txs = (StatusNotFound, Some (External ''down''), 0, [])"

definition noSend :: "string \<Rightarrow> Transaction \<Rightarrow> int \<times> error option \<times> string" where
  "noSend address tx = (StatusNotFound, Some (External ''down''), '''')"

definition failingMarshal :: "regularTransaction \<Rightarrow> error + byte list" where
  "failingMarshal object = Inl (External ''cannot marshal'')"

text \<open>The first observer is throttled, the second would accept the transaction.\<close>

definition throttledThenOk :: "string \<Rightarrow> Transaction \<Rightarrow> int \<times> error option \<times> string" where
  "throttledThenOk address tx =
     (if address = ''observer1''
      then (StatusTooManyRequests, Some (External ''too many requests''), '''')
      else (StatusOK, None, ''txhash''))"

text \<open>The first observer times out, the second rejects, the third would accept.\<close>

definition timeoutThenRejected :: "string \<Rightarrow> Transaction \<Rightarrow> int \<times> error option \<times> string" where
  "timeoutThenRejected address tx =
     (if address = ''observer1'' then (StatusRequestTimeout, Some (External ''timeout''), '''')
      else if address = ''observer2'' then (StatusBadRequest, Some (External ''bad nonce''), '''')
      else (StatusOK, None, ''txhash''))"

text \<open>The first observer is down, the second accepts.\<close>

definition downThenOk :: "string \<Rightarrow> Transaction \<Rightarrow> int \<times> error option \<times> string" where
  "downThenOk address tx =
     (if address = ''observer1'' then (StatusNotFound, Some (External ''down''), '''')
      else (StatusOK, None, ''txhash''))"

text \<open>
  Two worker shards and the metachain, one observer each; the supply an observer reports
  and the \<open>ReturnData\<close> of the query are given.
\<close>

definition esdtObservers :: "32 word \<Rightarrow> error + NodeData list" where
  "esdtObservers shardID =
     Inr [\<lparr>Address = (if shardID = 0 then ''shard0'' else if shardID = 1 then ''shard1'' else ''meta''),
           ShardId = shardID\<rparr>]"

definition exampleEsdt :: "(string \<Rightarrow> string) \<Rightarrow> string list \<Rightarrow> esdtSuppliesProcessor" where
  "exampleEsdt supplies returnData =
     \<lparr>baseProc_GetShardIDs = [0, 1, MetachainShardId],
      baseProc_GetObservers = esdtObservers,
      baseProc_CallGetRestEndPoint = (\<lambda>address path. (StatusOK, None, supplies address)),
      scQueryProc_ExecuteQuery = (\<lambda>query. Inr returnData)\<rparr>"

definition suppliesOk :: "string \<Rightarrow> string" where
  "suppliesOk address = (if address = ''shard0'' then ''100'' else ''50'')"

definition suppliesBad :: "string \<Rightarrow> string" where
  "suppliesBad address = (if address = ''shard0'' then ''100'' else ''5O'')"

definition shardSupplyOk :: "32 word \<Rightarrow> int" where
  "shardSupplyOk shardID = (if shardID = 0 then 100 else 50)"

definition returnDataOk :: "string list" where
  "returnDataOk = [''Token'', ''FungibleESDT'', ''owner'', ''25'', ''0'']"

definition returnDataBad :: "string list" where
  "returnDataBad = [''Token'', ''FungibleESDT'', ''owner'', ''0x19'', ''0'']"

text \<open>
  The two copies of a cross-shard transaction: the hash \<open>A\<close> is in both lists, \<open>B\<close> in the
  source's only, \<open>C\<close> in the destination's only.
\<close>

definition sourceTxExample :: "(nat list, string, unit) ApiTransactionResult" where
  "sourceTxExample =
     \<lparr>SmartContractResults =
        [\<lparr>Hash = ''A'', Logs = [1], scrFields = ''source''\<rparr>,
         \<lparr>Hash = ''B'', Logs = [2], scrFields = ''source''\<rparr>],
      txFields = ()\<rparr>"

definition destTxExample :: "(nat list, string, unit) ApiTransactionResult" where
  "destTxExample =
     \<lparr>SmartContractResults =
        [\<lparr>Hash = ''A'', Logs = [3], scrFields = ''destination''\<rparr>,
         \<lparr>Hash = ''C'', Logs = [4], scrFields = ''destination''\<rparr>],
      txFields = ()\<rparr>"

text \<open>
  For the batch: a transaction with no sender, a transaction of a sender in shard 0, one
  observer for each shard, and observers that accept every transaction they are sent.
\<close>

definition invalidTx :: Transaction where
  "invalidTx = exampleTx\<lparr>Sender := ''''\<rparr>"

definition carolTx :: Transaction where
  "carolTx = exampleTx\<lparr>Sender := ''carol1''\<rparr>"

definition observerOfShard :: "32 word \<Rightarrow> error + NodeData list" where
  "observerOfShard shardID =
     Inr [\<lparr>Address = (if shardID = 0 then ''shard0-observer'' else ''shard1-observer''),
           ShardId = shardID\<rparr>]"

definition acceptingMultiple ::
  "string \<Rightarrow> Transaction list \<Rightarrow> int \<times> error option \<times> 64 word \<times> (int \<times> string) list" where
  "acceptingMultiple address txs =
     (StatusOK, None, of_nat (length txs),
      map (\<lambda>(i, tx). (int i, ''hash-of-'' @ Sender tx)) (enumerate 0 txs))"

definition shardOneFailing ::
  "string \<Rightarrow> Transaction list \<Rightarrow> int \<times> error option \<times> 64 word \<times> (int \<times> string) list" where
  "shardOneFailing address txs =
     (if address = ''shard1-observer''
      then (StatusInternalServerError, Some (External ''internal error''), 0, [])
      else acceptingMultiple address txs)"

section \<open>Validation of the fields of a transaction\<close>

text \<open>
  C5. \<open>checkTransactionFields\<close> returns an \<open>ErrInvalidTxFields\<close> error exactly when the
  sender does not decode, or the receiver does not decode, or the chain ID is empty, or
  the version is zero, or the signature is not empty and is not hexadecimal; it returns
  no other error, so a transaction with none of these defects gets no error.
\<close>

theorem checkTransactionFields_InvalidTxFields_iff:
  "((\<exists>m r. checkTransactionFields tp tx = Some (ErrInvalidTxFields m r)) \<longleftrightarrow>
      (isl (pubKeyConverter_Decode tp (Sender tx))
       \<or> isl (pubKeyConverter_Decode tp (Receiver tx))
       \<or> ChainID tx = ''''
       \<or> Version tx = 0
       \<or> (Signature tx \<noteq> '''' \<and> isl (hex_DecodeString (Signature tx)))))
   \<and> ((\<exists>m r. checkTransactionFields tp tx = Some (ErrInvalidTxFields m r))
        \<or> checkTransactionFields tp tx = None)"
  by (cases "Signature tx = ''''")
     (auto simp: checkTransactionFields_def split: sum.splits)

section \<open>Sending one transaction\<close>

lemma sendToObservers_skip:
  assumes "\<forall>p \<in> set pre. fst (post (Address p) tx) = StatusNotFound
              \<or> fst (post (Address p) tx) = StatusRequestTimeout"
  shows "sendToObservers post tx (pre @ rest) =
          (fst (sendToObservers post tx rest),
           map Address pre @ snd (sendToObservers post tx rest))"
  using assms
  by (induction pre) (auto split: prod.splits)

lemma sendToObservers_terminal:
  assumes "post (Address observer) tx = (S, err, txHash)"
    and "S \<noteq> StatusOK" and "S \<noteq> StatusNotFound" and "S \<noteq> StatusRequestTimeout"
  shows "sendToObservers post tx (observer # rest) = ((S, '''', err), [Address observer])"
  using assms by simp

lemma SendTransaction_reaches_loop:
  assumes "checkTransactionFields tp tx = None"
    and "pubKeyConverter_Decode tp (Sender tx) = Inr senderBuff"
    and "proc_ComputeShardId tp senderBuff = Inr shardID"
    and "proc_GetObservers tp shardID = Inr observers"
  shows "SendTransaction tp tx = sendToObservers (proc_PostTransactionSend tp) tx observers"
  using assms by (simp add: SendTransaction_def)

lemma exampleProcessor_sel [simp]:
  "pubKeyConverter_Decode (exampleProcessor obs send multi marshal) = exampleDecode"
  "proc_ComputeShardId (exampleProcessor obs send multi marshal) = exampleShard"
  "proc_GetObservers (exampleProcessor obs send multi marshal) = obs"
  "proc_PostTransactionSend (exampleProcessor obs send multi marshal) = send"
  "proc_PostMultipleTransactions (exampleProcessor obs send multi marshal) = multi"
  "marshalizer_Marshal (exampleProcessor obs send multi marshal) = marshal"
  "shouldAllowEntireTxPoolFetch (exampleProcessor obs send multi marshal) = False"
  by (simp_all add: exampleProcessor_def)

lemma example_checks [simp]:
  "checkTransactionFields (exampleProcessor obs send multi marshal) exampleTx = None"
  by (simp add: checkTransactionFields_def exampleTx_def exampleDecode_def fromHexChar_def)

lemma example_sender [simp]:
  "exampleDecode (Sender exampleTx) = Inr (map of_char ''alice'')"
  by (simp add: exampleTx_def exampleDecode_def)

text \<open>
  C2, as the code has it. When the observers of the sender's shard are \<open>pre @ rest\<close> and
  every observer of \<open>pre\<close> answers 404 or 408, with or without an error, all of \<open>pre\<close> are
  called in order and the outcome is the outcome of the loop over \<open>rest\<close>: none of these
  answers is returned to the client. The next observer's answer is returned at once,
  with an empty hash, when its status is 429, or when it carries an error with a status
  other than 404 and 408.
\<close>

theorem SendTransaction_skips_NotFound_and_RequestTimeout:
  assumes "checkTransactionFields tp tx = None"
    and "pubKeyConverter_Decode tp (Sender tx) = Inr senderBuff"
    and "proc_ComputeShardId tp senderBuff = Inr shardID"
    and "proc_GetObservers tp shardID = Inr (pre @ rest)"
    and "\<forall>p \<in> set pre. fst (proc_PostTransactionSend tp (Address p) tx) = StatusNotFound
            \<or> fst (proc_PostTransactionSend tp (Address p) tx) = StatusRequestTimeout"
  shows "SendTransaction tp tx =
          (fst (sendToObservers (proc_PostTransactionSend tp) tx rest),
           map Address pre @ snd (sendToObservers (proc_PostTransactionSend tp) tx rest))
     \<and> (\<forall>observer others S err txHash.
           rest = observer # others
           \<and> proc_PostTransactionSend tp (Address observer) tx = (S, err, txHash)
           \<and> (S = StatusTooManyRequests
                \<or> (err \<noteq> None \<and> S \<noteq> StatusNotFound \<and> S \<noteq> StatusRequestTimeout))
           \<longrightarrow> SendTransaction tp tx = ((S, '''', err), map Address pre @ [Address observer]))"
proof -
  have "SendTransaction tp tx = sendToObservers (proc_PostTransactionSend tp) tx (pre @ rest)"
    using assms(1-4) by (rule SendTransaction_reaches_loop)
  then have skip: "SendTransaction tp tx =
          (fst (sendToObservers (proc_PostTransactionSend tp) tx rest),
           map Address pre @ snd (sendToObservers (proc_PostTransactionSend tp) tx rest))"
    using sendToObservers_skip [of pre "proc_PostTransactionSend tp" tx rest] assms(5) by simp
  have "SendTransaction tp tx = ((S, '''', err), map Address pre @ [Address observer])"
    if "rest = observer # others"
      and "proc_PostTransactionSend tp (Address observer) tx = (S, err, txHash)"
      and "S = StatusTooManyRequests
            \<or> (err \<noteq> None \<and> S \<noteq> StatusNotFound \<and> S \<noteq> StatusRequestTimeout)"
    for observer others S err txHash
    unfolding skip using that by auto
  with skip show ?thesis by blast
qed

theorem SendTransaction_skips_witness:
  "SendTransaction (exampleProcessor twoObservers downThenOk noMultiple failingMarshal) exampleTx
     = ((StatusOK, ''txhash'', None), [''observer1'', ''observer2''])
   \<and> SendTransaction (exampleProcessor twoObservers timeoutThenRejected noMultiple failingMarshal)
       exampleTx
     = ((StatusBadRequest, '''', Some (External ''bad nonce'')), [''observer1'', ''observer2''])"
  using SendTransaction_skips_NotFound_and_RequestTimeout
    [of "exampleProcessor twoObservers downThenOk noMultiple failingMarshal" exampleTx
        "map of_char ''alice''" 1
        "[\<lparr>Address = ''observer1'', ShardId = 1\<rparr>]"
        "[\<lparr>Address = ''observer2'', ShardId = 1\<rparr>]"]
    SendTransaction_skips_NotFound_and_RequestTimeout
    [of "exampleProcessor twoObservers timeoutThenRejected noMultiple failingMarshal" exampleTx
        "map of_char ''alice''" 1
        "[\<lparr>Address = ''observer1'', ShardId = 1\<rparr>]"
        "[\<lparr>Address = ''observer2'', ShardId = 1\<rparr>]"]
  by (simp add: exampleShard_def twoObservers_def downThenOk_def timeoutThenRejected_def)

text \<open>
  The claim as the specification states it fails for status 429: the first observer
  answers 429, the answer goes back to the client, and the second observer, which would
  have accepted the transaction, is never called.
\<close>

theorem SendTransaction_returns_TooManyRequests:
  "SendTransaction (exampleProcessor twoObservers throttledThenOk noMultiple failingMarshal)
     exampleTx
     = ((StatusTooManyRequests, '''', Some (External ''too many requests'')), [''observer1''])"
  by (simp add: SendTransaction_def exampleShard_def twoObservers_def throttledThenOk_def)

text \<open>
  C3. When the observers before the i-th all answered 404 or 408 and the i-th answers a
  status \<open>S\<close> other than 200, 404 and 408, \<open>SendTransaction\<close> returns \<open>S\<close> with the error of
  that answer and an empty hash, and the observers called are those up to the i-th: none
  after it.
\<close>

theorem SendTransaction_returns_terminal_status:
  assumes "checkTransactionFields tp tx = None"
    and "pubKeyConverter_Decode tp (Sender tx) = Inr senderBuff"
    and "proc_ComputeShardId tp senderBuff = Inr shardID"
    and "proc_GetObservers tp shardID = Inr (pre @ observer # rest)"
    and "\<forall>p \<in> set pre. fst (proc_PostTransactionSend tp (Address p) tx) = StatusNotFound
            \<or> fst (proc_PostTransactionSend tp (Address p) tx) = StatusRequestTimeout"
    and "proc_PostTransactionSend tp (Address observer) tx = (S, err, txHash)"
    and "S \<noteq> StatusOK" and "S \<noteq> StatusNotFound" and "S \<noteq> StatusRequestTimeout"
  shows "SendTransaction tp tx = ((S, '''', err), map Address pre @ [Address observer])"
proof -
  have "SendTransaction tp tx
          = sendToObservers (proc_PostTransactionSend tp) tx (pre @ observer # rest)"
    using assms(1-4) by (rule SendTransaction_reaches_loop)
  moreover have "sendToObservers (proc_PostTransactionSend tp) tx (observer # rest)
          = ((S, '''', err), [Address observer])"
    using assms(6-9) by (rule sendToObservers_terminal)
  ultimately show ?thesis
    using sendToObservers_skip [of pre "proc_PostTransactionSend tp" tx "observer # rest"] assms(5)
    by simp
qed

theorem SendTransaction_terminal_witness:
  "SendTransaction (exampleProcessor threeObservers timeoutThenRejected noMultiple failingMarshal)
     exampleTx
     = ((StatusBadRequest, '''', Some (External ''bad nonce'')), [''observer1'', ''observer2''])"
  using SendTransaction_returns_terminal_status
    [of "exampleProcessor threeObservers timeoutThenRejected noMultiple failingMarshal" exampleTx
        "map of_char ''alice''" 1
        "[\<lparr>Address = ''observer1'', ShardId = 1\<rparr>]"
        "\<lparr>Address = ''observer2'', ShardId = 1\<rparr>"
        "[\<lparr>Address = ''observer3'', ShardId = 1\<rparr>]"
        StatusBadRequest "Some (External ''bad nonce'')" "''''"]
  by (simp add: exampleShard_def threeObservers_def timeoutThenRejected_def)

section \<open>The hash of a transaction\<close>

text \<open>
  C7. When the value is a decimal integer and the receiver, the sender and the signature
  decode, a failure of the hash computation (the marshalizer fails) makes
  \<open>ComputeTransactionHash\<close> return the empty string and no error.
\<close>

theorem ComputeTransactionHash_hides_hashing_failure:
  assumes "SetString10 (Value tx) = Some valueBig"
    and "pubKeyConverter_Decode tp (Receiver tx) = Inr receiverAddress"
    and "pubKeyConverter_Decode tp (Sender tx) = Inr senderAddress"
    and "hex_DecodeString (Signature tx) = Inr signatureBytes"
    and "core_CalculateHash tp
           \<lparr>txNonce = Nonce tx, txValue = valueBig, txRcvAddr = receiverAddress,
            txSndAddr = senderAddress, txGasPrice = GasPrice tx, txGasLimit = GasLimit tx,
            txData = Data tx, txChainID = ChainID tx, txVersion = Version tx,
            txSignature = signatureBytes\<rparr> = Inl err"
  shows "ComputeTransactionHash tp tx = ('''', None)"
  using assms by (simp add: ComputeTransactionHash_def)

theorem ComputeTransactionHash_hides_hashing_failure_witness:
  "ComputeTransactionHash (exampleProcessor twoObservers downThenOk noMultiple failingMarshal)
     exampleTx = ('''', None)"
  using ComputeTransactionHash_hides_hashing_failure
    [of exampleTx 1000 "exampleProcessor twoObservers downThenOk noMultiple failingMarshal"
        "map of_char ''bob''" "map of_char ''alice''" "[10, 27]" "External ''cannot marshal''"]
  by (simp add: exampleTx_def exampleDecode_def SetString10_def digitOf_def fromHexChar_def
      core_CalculateHash_def failingMarshal_def)

section \<open>The transactions pool of a shard\<close>

text \<open>
  C10. With \<open>shouldAllowEntireTxPoolFetch\<close> false, \<open>GetTransactionsPoolForShard\<close> fails
  with \<open>ErrOperationNotAllowed\<close> and calls no observer.
\<close>

theorem GetTransactionsPoolForShard_not_allowed:
  assumes "\<not> shouldAllowEntireTxPoolFetch tp"
  shows "GetTransactionsPoolForShard tp shardID poolFields = (Inl ErrOperationNotAllowed, [])"
  using assms by (simp add: GetTransactionsPoolForShard_def)

theorem GetTransactionsPoolForShard_not_allowed_witness:
  "GetTransactionsPoolForShard (exampleProcessor twoObservers downThenOk noMultiple failingMarshal)
     0 ''sender,nonce'' = (Inl ErrOperationNotAllowed, [])"
  using GetTransactionsPoolForShard_not_allowed
    [of "exampleProcessor twoObservers downThenOk noMultiple failingMarshal" 0 "''sender,nonce''"]
  by simp


section \<open>The supply of a token\<close>

lemma shardSupplyFromObservers_skip:
  assumes "\<forall>d \<in> set down. fst (snd (baseProc_CallGetRestEndPoint esp (Address d) apiPath)) \<noteq> None"
  shows "shardSupplyFromObservers esp apiPath (down @ rest)
           = shardSupplyFromObservers esp apiPath rest"
  using assms by (induction down) (auto split: prod.splits)

lemma supplyFromShards_sum:
  assumes "\<forall>s \<in> set shardIDs. s \<noteq> MetachainShardId
             \<longrightarrow> getShardSupply esp token s = Inr (Some (shardSupply s))"
  shows "supplyFromShards esp token shardIDs totalSupply =
           Returned (Inr (totalSupply
              + sum_list (map shardSupply (filter (\<lambda>s. s \<noteq> MetachainShardId) shardIDs))))"
  using assms by (induction shardIDs arbitrary: totalSupply) auto

lemma supplyFromShards_prefix:
  assumes "\<forall>s \<in> set pre. s = MetachainShardId \<or> (\<exists>v. getShardSupply esp token s = Inr (Some v))"
  shows "\<exists>total'. supplyFromShards esp token (pre @ rest) totalSupply
           = supplyFromShards esp token rest total'"
  using assms
proof (induction pre arbitrary: totalSupply)
  case Nil
  then show ?case by auto
next
  case (Cons s pre)
  then show ?case by (cases "s = MetachainShardId") auto
qed

lemma esdt_example_sel [simp]:
  "baseProc_GetShardIDs (exampleEsdt supplies rd) = [0, 1, MetachainShardId]"
  "baseProc_GetObservers (exampleEsdt supplies rd) = esdtObservers"
  "baseProc_CallGetRestEndPoint (exampleEsdt supplies rd) = (\<lambda>address path. (StatusOK, None, supplies address))"
  "scQueryProc_ExecuteQuery (exampleEsdt supplies rd) = (\<lambda>query. Inr rd)"
  by (simp_all add: exampleEsdt_def)

lemma worker_shards_not_meta [simp]:
  "(0 :: 32 word) \<noteq> MetachainShardId" "(1 :: 32 word) \<noteq> MetachainShardId"
  by (simp_all add: MetachainShardId_def)

text \<open>
  C4. When every worker shard reports a supply, \<open>GetESDTSupply\<close> returns the sum of the
  reported supplies over the shard IDs other than the metachain's, and for a token
  identifier of fewer than three parts it adds the initial supply of the
  \<open>getTokenProperties\<close> query: zero when \<open>returnData\<close> has fewer than four entries, entry 3
  read as a decimal number otherwise. A token of three or more parts gets the sum alone.
\<close>

theorem GetESDTSupply_is_sum_plus_initial:
  assumes "\<forall>s \<in> set (baseProc_GetShardIDs esp). s \<noteq> MetachainShardId
             \<longrightarrow> getShardSupply esp t s = Inr (Some (shardSupply s))"
  shows "(\<not> length (strings_Split t CHR ''-'') < 3 \<longrightarrow>
            GetESDTSupply esp t = Returned (Inr (bigInt_String
              (sum_list (map shardSupply
                 (filter (\<lambda>s. s \<noteq> MetachainShardId) (baseProc_GetShardIDs esp)))))))
       \<and> (length (strings_Split t CHR ''-'') < 3
            \<and> scQueryProc_ExecuteQuery esp
                 \<lparr>ScAddress = esdtContractAddress, FuncName = initialESDTSupplyFunc,
                  Arguments = [t]\<rparr> = Inr returnData
            \<and> length returnData < 4 \<longrightarrow>
            GetESDTSupply esp t = Returned (Inr (bigInt_String
              (sum_list (map shardSupply
                 (filter (\<lambda>s. s \<noteq> MetachainShardId) (baseProc_GetShardIDs esp))) + 0))))
       \<and> (length (strings_Split t CHR ''-'') < 3
            \<and> scQueryProc_ExecuteQuery esp
                 \<lparr>ScAddress = esdtContractAddress, FuncName = initialESDTSupplyFunc,
                  Arguments = [t]\<rparr> = Inr returnData
            \<and> 4 \<le> length returnData
            \<and> SetString10 (returnData ! 3) = Some initialSupply \<longrightarrow>
            GetESDTSupply esp t = Returned (Inr (bigInt_String
              (sum_list (map shardSupply
                 (filter (\<lambda>s. s \<noteq> MetachainShardId) (baseProc_GetShardIDs esp)))
               + initialSupply))))"
proof -
  have total: "getSupplyFromShards esp t = Returned (Inr
      (sum_list (map shardSupply
         (filter (\<lambda>s. s \<noteq> MetachainShardId) (baseProc_GetShardIDs esp)))))"
    using supplyFromShards_sum [OF assms, of 0] by (simp add: getSupplyFromShards_def)
  show ?thesis
    by (simp add: GetESDTSupply_def total isFungibleESDT_def getInitialSupplyFromMeta_def)
qed

theorem GetESDTSupply_is_sum_plus_initial_witness:
  "GetESDTSupply (exampleEsdt suppliesOk returnDataOk) ''TKN-000001'' = Returned (Inr ''175'')
   \<and> GetESDTSupply (exampleEsdt suppliesOk returnDataOk) ''NFT-000001-01'' = Returned (Inr ''150'')
   \<and> GetESDTSupply (exampleEsdt suppliesOk [''Token'']) ''TKN-000001'' = Returned (Inr ''150'')"
proof -
  have shards: "\<forall>s \<in> set (baseProc_GetShardIDs (exampleEsdt suppliesOk rd)).
      s \<noteq> MetachainShardId
        \<longrightarrow> getShardSupply (exampleEsdt suppliesOk rd) t s = Inr (Some (shardSupplyOk s))"
    for rd t
    by (simp add: getShardSupply_def esdtObservers_def suppliesOk_def shardSupplyOk_def
        SetString10_def digitOf_def)
  have n175: "bigInt_String 175 = ''175''" and n150: "bigInt_String 150 = ''150''"
    by code_simp+
  have parts: "length (strings_Split ''TKN-000001'' CHR ''-'') = 2"
    "length (strings_Split ''NFT-000001-01'' CHR ''-'') = 3"
    by simp_all
  have init: "SetString10 (returnDataOk ! 3) = Some 25"
    by (simp add: returnDataOk_def SetString10_def digitOf_def)
  have len: "length returnDataOk = 5"
    by (simp add: returnDataOk_def)
  show ?thesis
    using GetESDTSupply_is_sum_plus_initial
            [where esp = "exampleEsdt suppliesOk returnDataOk" and t = "''TKN-000001''"
               and shardSupply = shardSupplyOk and returnData = returnDataOk
               and initialSupply = 25, OF shards]
          GetESDTSupply_is_sum_plus_initial
            [where esp = "exampleEsdt suppliesOk returnDataOk" and t = "''NFT-000001-01''"
               and shardSupply = shardSupplyOk and returnData = returnDataOk
               and initialSupply = 25, OF shards]
          GetESDTSupply_is_sum_plus_initial
            [where esp = "exampleEsdt suppliesOk [''Token'']" and t = "''TKN-000001''"
               and shardSupply = shardSupplyOk and returnData = "[''Token'']"
               and initialSupply = 0, OF shards]
    by (simp add: parts init len shardSupplyOk_def n175 n150)
qed

text \<open>
  C8. \<open>GetESDTSupply\<close> panics on a number it cannot read. When the first observer of a
  worker shard that answers without an error reports a supply that is not empty and is
  not a decimal number, \<open>getShardSupply\<close> returns the nil \<open>*big.Int\<close> with no error and the
  sum dereferences it; and for a fungible token whose shards all report, a \<open>returnData\<close>
  of four or more entries whose entry 3 is not a decimal number does the same to the
  addition of the initial supply.
\<close>

theorem GetESDTSupply_panics_on_unreadable_number:
  "(baseProc_GetShardIDs esp = pre @ shardID # rest
      \<and> (\<forall>s \<in> set pre. s = MetachainShardId \<or> (\<exists>v. getShardSupply esp t s = Inr (Some v)))
      \<and> shardID \<noteq> MetachainShardId
      \<and> baseProc_GetObservers esp shardID = Inr (down @ observer # others)
      \<and> (\<forall>d \<in> set down.
            fst (snd (baseProc_CallGetRestEndPoint esp (Address d) (networkESDTSupplyPath @ t)))
              \<noteq> None)
      \<and> baseProc_CallGetRestEndPoint esp (Address observer) (networkESDTSupplyPath @ t)
            = (respCode, None, reported)
      \<and> reported \<noteq> '''' \<and> SetString10 reported = None
      \<longrightarrow> GetESDTSupply esp t = Panicked)
   \<and> ((\<forall>s \<in> set (baseProc_GetShardIDs esp).
          s = MetachainShardId \<or> (\<exists>v. getShardSupply esp t s = Inr (Some v)))
      \<and> isFungibleESDT t
      \<and> scQueryProc_ExecuteQuery esp
           \<lparr>ScAddress = esdtContractAddress, FuncName = initialESDTSupplyFunc,
            Arguments = [t]\<rparr> = Inr returnData
      \<and> 4 \<le> length returnData \<and> SetString10 (returnData ! 3) = None
      \<longrightarrow> GetESDTSupply esp t = Panicked)"
proof (intro conjI impI)
  assume a: "baseProc_GetShardIDs esp = pre @ shardID # rest
      \<and> (\<forall>s \<in> set pre. s = MetachainShardId \<or> (\<exists>v. getShardSupply esp t s = Inr (Some v)))
      \<and> shardID \<noteq> MetachainShardId
      \<and> baseProc_GetObservers esp shardID = Inr (down @ observer # others)
      \<and> (\<forall>d \<in> set down.
            fst (snd (baseProc_CallGetRestEndPoint esp (Address d) (networkESDTSupplyPath @ t)))
              \<noteq> None)
      \<and> baseProc_CallGetRestEndPoint esp (Address observer) (networkESDTSupplyPath @ t)
            = (respCode, None, reported)
      \<and> reported \<noteq> '''' \<and> SetString10 reported = None"
  then have "shardSupplyFromObservers esp (networkESDTSupplyPath @ t) (down @ observer # others)
      = shardSupplyFromObservers esp (networkESDTSupplyPath @ t) (observer # others)"
    using shardSupplyFromObservers_skip [of down esp "networkESDTSupplyPath @ t" "observer # others"]
    by blast
  with a have nil: "getShardSupply esp t shardID = Inr None"
    by (simp add: getShardSupply_def)
  from a obtain total' where
    "supplyFromShards esp t (pre @ shardID # rest) 0 = supplyFromShards esp t (shardID # rest) total'"
    using supplyFromShards_prefix [of pre esp t "shardID # rest" 0] by blast
  with a nil have "getSupplyFromShards esp t = Panicked"
    by (simp add: getSupplyFromShards_def)
  then show "GetESDTSupply esp t = Panicked"
    by (simp add: GetESDTSupply_def)
next
  assume b: "(\<forall>s \<in> set (baseProc_GetShardIDs esp).
          s = MetachainShardId \<or> (\<exists>v. getShardSupply esp t s = Inr (Some v)))
      \<and> isFungibleESDT t
      \<and> scQueryProc_ExecuteQuery esp
           \<lparr>ScAddress = esdtContractAddress, FuncName = initialESDTSupplyFunc,
            Arguments = [t]\<rparr> = Inr returnData
      \<and> 4 \<le> length returnData \<and> SetString10 (returnData ! 3) = None"
  then obtain total' where
    "supplyFromShards esp t (baseProc_GetShardIDs esp @ []) 0 = supplyFromShards esp t [] total'"
    using supplyFromShards_prefix [of "baseProc_GetShardIDs esp" esp t "[]" 0] by blast
  then have "getSupplyFromShards esp t = Returned (Inr total')"
    by (simp add: getSupplyFromShards_def)
  with b show "GetESDTSupply esp t = Panicked"
    by (simp add: GetESDTSupply_def getInitialSupplyFromMeta_def)
qed

theorem GetESDTSupply_panics_witness:
  "GetESDTSupply (exampleEsdt suppliesBad returnDataOk) ''TKN-000001'' = Panicked
   \<and> GetESDTSupply (exampleEsdt suppliesOk returnDataBad) ''TKN-000001'' = Panicked"
proof -
  have ok: "getShardSupply (exampleEsdt suppliesOk rd) t s = Inr (Some (shardSupplyOk s))"
    if "s \<noteq> MetachainShardId" for rd t s
    by (simp add: getShardSupply_def esdtObservers_def suppliesOk_def shardSupplyOk_def
        SetString10_def digitOf_def)
  have first: "getShardSupply (exampleEsdt suppliesBad rd) t 0 = Inr (Some 100)" for rd t
    by (simp add: getShardSupply_def esdtObservers_def suppliesBad_def
        SetString10_def digitOf_def)
  have bad: "SetString10 ''5O'' = None" "SetString10 ''0x19'' = None"
    by (simp_all add: SetString10_def digitOf_def)
  have fung: "isFungibleESDT ''TKN-000001''"
    by (simp add: isFungibleESDT_def)
  have "GetESDTSupply (exampleEsdt suppliesBad returnDataOk) ''TKN-000001'' = Panicked"
    using GetESDTSupply_panics_on_unreadable_number
            [where esp = "exampleEsdt suppliesBad returnDataOk" and pre = "[0]"
               and shardID = 1 and rest = "[MetachainShardId]" and t = "''TKN-000001''"
               and down = "[]" and observer = "\<lparr>Address = ''shard1'', ShardId = 1\<rparr>"
               and others = "[]" and respCode = StatusOK and reported = "''5O''"]
    by (simp add: first bad esdtObservers_def suppliesBad_def)
  moreover have "GetESDTSupply (exampleEsdt suppliesOk returnDataBad) ''TKN-000001'' = Panicked"
    using GetESDTSupply_panics_on_unreadable_number
            [where esp = "exampleEsdt suppliesOk returnDataBad" and t = "''TKN-000001''"
               and returnData = returnDataBad]
    by (simp add: ok bad fung returnDataBad_def)
  ultimately show ?thesis by simp
qed

section \<open>Merging the results of the source and of the destination shard\<close>

lemma scResultsHashOf_append:
  "scResultsHashOf mrg (xs @ ys) m = scResultsHashOf mrg ys (scResultsHashOf mrg xs m)"
  by (induction xs arbitrary: m) (simp_all split: option.splits)

lemma scResultsHashOf_distinct:
  "distinct (map fst m) \<Longrightarrow> distinct (map fst (scResultsHashOf mrg xs m))"
  by (induction xs arbitrary: m) (simp_all split: option.splits add: distinct_update)



lemma keyed_update:
  assumes "\<And>k v. map_of m k = Some v \<Longrightarrow> Hash v = k" and "Hash w = h"
    and "map_of (AList.update h w m) k = Some v"
  shows "Hash v = k"
proof (cases "k = h")
  case True
  with assms(3) have "v = w" by (simp add: update_conv')
  with assms(2) True show ?thesis by simp
next
  case False
  with assms(3) have "map_of m k = Some v" by (simp add: update_conv')
  then show ?thesis by (rule assms(1))
qed

lemma scResultsHashOf_keyed:
  assumes "\<And>k v. map_of m k = Some v \<Longrightarrow> Hash v = k"
    and "map_of (scResultsHashOf mrg xs m) k = Some v"
  shows "Hash v = k"
  using assms
proof (induction xs arbitrary: m)
  case Nil
  then show ?case by simp
next
  case (Cons x xs)
  show ?case
  proof (cases "map_of m (Hash x)")
    case None
    have step: "map_of (scResultsHashOf mrg xs (AList.update (Hash x) x m)) k = Some v"
      using Cons.prems(2) None by simp
    show ?thesis
      by (rule Cons.IH [OF keyed_update [OF Cons.prems(1) refl] step])
  next
    case (Some y)
    have h: "Hash (x\<lparr>Logs := mrg (Logs y) (Logs x)\<rparr>) = Hash x" by simp
    have step: "map_of (scResultsHashOf mrg xs
        (AList.update (Hash x) (x\<lparr>Logs := mrg (Logs y) (Logs x)\<rparr>) m)) k = Some v"
      using Cons.prems(2) Some by simp
    show ?thesis
      by (rule Cons.IH [OF keyed_update [OF Cons.prems(1) h] step])
  qed
qed


lemma scResultsHashOf_dom:
  "dom (map_of (scResultsHashOf mrg xs m)) = dom (map_of m) \<union> Hash ` set xs"
proof (induction xs arbitrary: m)
  case Nil
  then show ?case by simp
next
  case (Cons x xs)
  show ?case
  proof (cases "map_of m (Hash x)")
    case None
    have "dom (map_of (AList.update (Hash x) x m)) = insert (Hash x) (dom (map_of m))"
      by (simp add: update_conv')
    then show ?thesis
      using Cons.IH [of "AList.update (Hash x) x m"] None by auto
  next
    case (Some y)
    have "dom (map_of (AList.update (Hash x) (x\<lparr>Logs := mrg (Logs y) (Logs x)\<rparr>) m))
            = insert (Hash x) (dom (map_of m))"
      by (simp add: update_conv')
    then show ?thesis
      using Cons.IH [of "AList.update (Hash x) (x\<lparr>Logs := mrg (Logs y) (Logs x)\<rparr>) m"] Some
      by auto
  qed
qed


lemma scResultsHashOf_lookup:
  assumes "distinct (map Hash xs)"
  shows "map_of (scResultsHashOf mrg xs m) h
           = (case find (\<lambda>x. Hash x = h) xs of
                None \<Rightarrow> map_of m h
              | Some x \<Rightarrow>
                  (case map_of m h of
                     None \<Rightarrow> Some x
                   | Some y \<Rightarrow> Some (x\<lparr>Logs := mrg (Logs y) (Logs x)\<rparr>)))"
  using assms
proof (induction xs arbitrary: m)
  case Nil
  then show ?case by simp
next
  case (Cons x xs)
  from Cons.prems have dxs: "distinct (map Hash xs)"
    and fresh: "\<forall>z \<in> set xs. Hash z \<noteq> Hash x"
    by (auto simp: image_iff)
  define w where "w = (case map_of m (Hash x) of None \<Rightarrow> x
                       | Some y \<Rightarrow> x\<lparr>Logs := mrg (Logs y) (Logs x)\<rparr>)"
  have unfold: "scResultsHashOf mrg (x # xs) m = scResultsHashOf mrg xs (AList.update (Hash x) w m)"
    by (simp add: w_def split: option.splits)
  have IH: "map_of (scResultsHashOf mrg xs (AList.update (Hash x) w m)) h
              = (case find (\<lambda>x. Hash x = h) xs of
                   None \<Rightarrow> map_of (AList.update (Hash x) w m) h
                 | Some z \<Rightarrow>
                     (case map_of (AList.update (Hash x) w m) h of
                        None \<Rightarrow> Some z
                      | Some y \<Rightarrow> Some (z\<lparr>Logs := mrg (Logs y) (Logs z)\<rparr>)))"
    by (rule Cons.IH [OF dxs])
  show ?case
  proof (cases "Hash x = h")
    case True
    with fresh have "find (\<lambda>x. Hash x = h) xs = None"
      by (simp add: find_None_iff)
    then show ?thesis
      unfolding unfold IH using True
      by (simp add: update_conv' w_def split: option.splits)
  next
    case False
    then show ?thesis
      unfolding unfold IH
      by (simp add: update_conv' split: option.splits)
  qed
qed

lemma find_by_Hash:
  assumes "distinct (map Hash xs)" and "x \<in> set xs"
  shows "find (\<lambda>z. Hash z = Hash x) xs = Some x"
  using assms by (induction xs) (auto simp: image_iff)

lemma find_by_Hash_absent:
  assumes "h \<notin> Hash ` set xs"
  shows "find (\<lambda>z. Hash z = h) xs = None"
  using assms by (auto simp: find_None_iff)

lemma union_lookup:
  assumes "distinct (map Hash src)" and "distinct (map Hash dst)"
  shows "map_of (scResultsHashOf mrg (src @ dst) []) h
           = (case find (\<lambda>x. Hash x = h) dst of
                None \<Rightarrow> find (\<lambda>x. Hash x = h) src
              | Some d \<Rightarrow>
                  (case find (\<lambda>x. Hash x = h) src of
                     None \<Rightarrow> Some d
                   | Some s \<Rightarrow> Some (d\<lparr>Logs := mrg (Logs s) (Logs d)\<rparr>)))"
proof -
  have first: "map_of (scResultsHashOf mrg src []) h = find (\<lambda>x. Hash x = h) src"
    using scResultsHashOf_lookup [OF assms(1), of mrg "[]" h] by (simp split: option.splits)
  show ?thesis
    unfolding scResultsHashOf_append scResultsHashOf_lookup [OF assms(2)] first
    by (simp split: option.splits)
qed

lemma union_entries:
  assumes order: "mset (rangeOrder (scResultsHashOf mrg xs [])) = mset (scResultsHashOf mrg xs [])"
  shows "set (map snd (rangeOrder (scResultsHashOf mrg xs [])))
           = {v. \<exists>k. map_of (scResultsHashOf mrg xs []) k = Some v}"
proof -
  have d: "distinct (map fst (scResultsHashOf mrg xs []))"
    by (rule scResultsHashOf_distinct) simp
  have "set (rangeOrder (scResultsHashOf mrg xs [])) = set (scResultsHashOf mrg xs [])"
    using order by (rule mset_eq_setD)
  then show ?thesis
    using map_of_eq_Some_iff [OF d] by force
qed

lemma union_hashes:
  assumes order: "mset (rangeOrder (scResultsHashOf mrg xs [])) = mset (scResultsHashOf mrg xs [])"
  shows "map Hash (map snd (rangeOrder (scResultsHashOf mrg xs [])))
           = map fst (rangeOrder (scResultsHashOf mrg xs []))"
proof -
  have d: "distinct (map fst (scResultsHashOf mrg xs []))"
    by (rule scResultsHashOf_distinct) simp
  have same: "set (rangeOrder (scResultsHashOf mrg xs [])) = set (scResultsHashOf mrg xs [])"
    using order by (rule mset_eq_setD)
  have "Hash (snd e) = fst e" if "e \<in> set (rangeOrder (scResultsHashOf mrg xs []))" for e
  proof -
    from that same have "(fst e, snd e) \<in> set (scResultsHashOf mrg xs [])" by simp
    then have "map_of (scResultsHashOf mrg xs []) (fst e) = Some (snd e)"
      using map_of_eq_Some_iff [OF d] by blast
    then show ?thesis
      by (rule scResultsHashOf_keyed [rotated]) simp
  qed
  then show ?thesis by simp
qed


text \<open>
  C1. With results asked for, the smart contract results of the merged transaction have
  pairwise different hashes, and their hashes are the hashes of the source list and of
  the destination list together: each occurs once, in whichever order Go ranges over the
  map. When the hashes within each of the two lists are different, a result whose hash
  is in both lists is the destination's copy with its \<open>Logs\<close> replaced by
  \<open>MergeLogEvents\<close> of the source's logs and the destination's logs, and a result whose
  hash is in one list only is kept as it is.
\<close>

theorem merged_results_are_the_union_by_hash:
  assumes order: "\<And>m. mset (rangeOrder m) = mset m"
  shows "distinct (map Hash (SmartContractResults
            (mergeScResultsFromSourceAndDestIfNeeded tp rangeOrder sourceTx destTx True)))
     \<and> set (map Hash (SmartContractResults
            (mergeScResultsFromSourceAndDestIfNeeded tp rangeOrder sourceTx destTx True)))
          = Hash ` (set (SmartContractResults sourceTx) \<union> set (SmartContractResults destTx))
     \<and> (distinct (map Hash (SmartContractResults sourceTx))
          \<and> distinct (map Hash (SmartContractResults destTx)) \<longrightarrow>
          (\<forall>s \<in> set (SmartContractResults sourceTx). \<forall>d \<in> set (SmartContractResults destTx).
             Hash s = Hash d \<longrightarrow>
               d\<lparr>Logs := mergeLogsHandler_MergeLogEvents tp (Logs s) (Logs d)\<rparr>
                 \<in> set (SmartContractResults
                     (mergeScResultsFromSourceAndDestIfNeeded tp rangeOrder sourceTx destTx True)))
          \<and> (\<forall>s \<in> set (SmartContractResults sourceTx).
                Hash s \<notin> Hash ` set (SmartContractResults destTx) \<longrightarrow>
                s \<in> set (SmartContractResults
                     (mergeScResultsFromSourceAndDestIfNeeded tp rangeOrder sourceTx destTx True)))
          \<and> (\<forall>d \<in> set (SmartContractResults destTx).
                Hash d \<notin> Hash ` set (SmartContractResults sourceTx) \<longrightarrow>
                d \<in> set (SmartContractResults
                     (mergeScResultsFromSourceAndDestIfNeeded tp rangeOrder sourceTx destTx True))))"
proof -
  define src where "src = SmartContractResults sourceTx"
  define dst where "dst = SmartContractResults destTx"
  define mrg where "mrg = mergeLogsHandler_MergeLogEvents tp"
  define M where "M = scResultsHashOf mrg (src @ dst) []"
  define res where "res = map snd (rangeOrder M)"
  have res: "SmartContractResults
      (mergeScResultsFromSourceAndDestIfNeeded tp rangeOrder sourceTx destTx True) = res"
    by (simp add: mergeScResultsFromSourceAndDestIfNeeded_def getScResultsUnion_def
        res_def M_def mrg_def src_def dst_def)
  have ord: "mset (rangeOrder M) = mset M"
    by (rule order)
  have dM: "distinct (map fst M)"
    unfolding M_def by (rule scResultsHashOf_distinct) simp
  have hashes: "map Hash res = map fst (rangeOrder M)"
    unfolding res_def M_def by (rule union_hashes) (rule order)
  have entries: "set res = {v. \<exists>k. map_of M k = Some v}"
    unfolding res_def M_def by (rule union_entries) (rule order)
  have "mset (map fst (rangeOrder M)) = mset (map fst M)"
    using ord by (metis mset_map)
  then have "distinct (map fst (rangeOrder M)) \<longleftrightarrow> distinct (map fst M)"
    by (rule mset_eq_imp_distinct_iff)
  with dM hashes have one: "distinct (map Hash res)"
    by simp
  have "set (map fst (rangeOrder M)) = fst ` set M"
    using mset_eq_setD [OF ord] by simp
  also have "\<dots> = dom (map_of M)"
    by (simp add: dom_map_of_conv_image_fst)
  also have "\<dots> = Hash ` (set src \<union> set dst)"
    unfolding M_def by (simp add: scResultsHashOf_dom)
  finally have two: "set (map Hash res) = Hash ` (set src \<union> set dst)"
    using hashes by simp
  have three: "d\<lparr>Logs := mrg (Logs s) (Logs d)\<rparr> \<in> set res"
    if "distinct (map Hash src)" "distinct (map Hash dst)" "s \<in> set src" "d \<in> set dst"
      "Hash s = Hash d" for s d
  proof -
    have "find (\<lambda>x. Hash x = Hash d) dst = Some d"
      using that(2,4) by (rule find_by_Hash)
    moreover have "find (\<lambda>x. Hash x = Hash d) src = Some s"
      using find_by_Hash [OF that(1,3)] that(5) by simp
    ultimately have "map_of M (Hash d) = Some (d\<lparr>Logs := mrg (Logs s) (Logs d)\<rparr>)"
      unfolding M_def union_lookup [OF that(1,2)] by simp
    then show ?thesis
      unfolding entries by blast
  qed
  have four: "s \<in> set res"
    if "distinct (map Hash src)" "distinct (map Hash dst)" "s \<in> set src"
      "Hash s \<notin> Hash ` set dst" for s
  proof -
    have "find (\<lambda>x. Hash x = Hash s) dst = None"
      using that(4) by (rule find_by_Hash_absent)
    moreover have "find (\<lambda>x. Hash x = Hash s) src = Some s"
      using that(1,3) by (rule find_by_Hash)
    ultimately have "map_of M (Hash s) = Some s"
      unfolding M_def union_lookup [OF that(1,2)] by simp
    then show ?thesis
      unfolding entries by blast
  qed
  have five: "d \<in> set res"
    if "distinct (map Hash src)" "distinct (map Hash dst)" "d \<in> set dst"
      "Hash d \<notin> Hash ` set src" for d
  proof -
    have "find (\<lambda>x. Hash x = Hash d) src = None"
      using that(4) by (rule find_by_Hash_absent)
    moreover have "find (\<lambda>x. Hash x = Hash d) dst = Some d"
      using that(2,3) by (rule find_by_Hash)
    ultimately have "map_of M (Hash d) = Some d"
      unfolding M_def union_lookup [OF that(1,2)] by simp
    then show ?thesis
      unfolding entries by blast
  qed
  show ?thesis
    unfolding res
    using one two three four five
    unfolding src_def dst_def mrg_def
    by blast
qed


theorem merged_results_witness:
  "distinct (map Hash (SmartContractResults
      (mergeScResultsFromSourceAndDestIfNeeded (exampleProcessor twoObservers downThenOk noMultiple failingMarshal) rev sourceTxExample destTxExample True)))
   \<and> set (map Hash (SmartContractResults
      (mergeScResultsFromSourceAndDestIfNeeded (exampleProcessor twoObservers downThenOk noMultiple failingMarshal) rev sourceTxExample destTxExample True)))
        = {''A'', ''B'', ''C''}
   \<and> \<lparr>Hash = ''A'', Logs = [1, 3], scrFields = ''destination''\<rparr>
        \<in> set (SmartContractResults
      (mergeScResultsFromSourceAndDestIfNeeded (exampleProcessor twoObservers downThenOk noMultiple failingMarshal) rev sourceTxExample destTxExample True))
   \<and> \<lparr>Hash = ''B'', Logs = [2], scrFields = ''source''\<rparr>
        \<in> set (SmartContractResults
      (mergeScResultsFromSourceAndDestIfNeeded (exampleProcessor twoObservers downThenOk noMultiple failingMarshal) rev sourceTxExample destTxExample True))
   \<and> \<lparr>Hash = ''C'', Logs = [4], scrFields = ''destination''\<rparr>
        \<in> set (SmartContractResults
      (mergeScResultsFromSourceAndDestIfNeeded (exampleProcessor twoObservers downThenOk noMultiple failingMarshal) rev sourceTxExample destTxExample True))"
proof -
  have order: "mset (rev m) = mset m" for m :: "(string \<times> (nat list, string) ApiSmartContractResult) list"
    by simp
  have src: "SmartContractResults sourceTxExample =
        [\<lparr>Hash = ''A'', Logs = [1], scrFields = ''source''\<rparr>,
         \<lparr>Hash = ''B'', Logs = [2], scrFields = ''source''\<rparr>]"
    and dst: "SmartContractResults destTxExample =
        [\<lparr>Hash = ''A'', Logs = [3], scrFields = ''destination''\<rparr>,
         \<lparr>Hash = ''C'', Logs = [4], scrFields = ''destination''\<rparr>]"
    and mrg: "mergeLogsHandler_MergeLogEvents
        (exampleProcessor twoObservers downThenOk noMultiple failingMarshal) = (\<lambda>a b. a @ b)"
    by (simp_all add: sourceTxExample_def destTxExample_def exampleProcessor_def)
  show ?thesis
    using merged_results_are_the_union_by_hash
            [of rev "exampleProcessor twoObservers downThenOk noMultiple failingMarshal"
                sourceTxExample destTxExample, OF order]
    unfolding src dst mrg
    by auto
qed

section \<open>Sending a batch of transactions\<close>


lemma txsOfShard_update:
  "txsOfShard (AList.update k v m) s = (if s = k then v else txsOfShard m s)"
  by (simp add: txsOfShard_def update_conv')

lemma groupTxsByShardFrom_distinct:
  "distinct (map fst m) \<Longrightarrow> distinct (map fst (groupTxsByShardFrom tp idx txs m))"
  by (induction txs arbitrary: idx m) (simp_all split: sum.splits add: distinct_update)

lemma groupTxsByShardFrom_txsOfShard:
  "txsOfShard (groupTxsByShardFrom tp idx txs m) s = txsOfShard m s @ indexedOfShard tp s idx txs"
proof (induction txs arbitrary: idx m)
  case Nil
  then show ?case by (simp add: indexedOfShard_def)
next
  case (Cons tx txs)
  show ?case
  proof (cases "senderShardOf tp tx")
    case None
    then have "groupTxsByShardFrom tp idx (tx # txs) m = groupTxsByShardFrom tp (Suc idx) txs m"
      by (simp add: senderShardOf_def split: sum.splits)
    moreover from None have "indexedOfShard tp s idx (tx # txs) = indexedOfShard tp s (Suc idx) txs"
      by (simp add: indexedOfShard_def)
    ultimately show ?thesis
      using Cons.IH by simp
  next
    case (Some k)
    then have "groupTxsByShardFrom tp idx (tx # txs) m
        = groupTxsByShardFrom tp (Suc idx) txs
            (AList.update k (txsOfShard m k @ [tx\<lparr>Index := int idx\<rparr>]) m)"
      by (auto simp: senderShardOf_def split: sum.splits)
    moreover from Some have "indexedOfShard tp s idx (tx # txs)
        = (if s = k then [tx\<lparr>Index := int idx\<rparr>] else []) @ indexedOfShard tp s (Suc idx) txs"
      by (simp add: indexedOfShard_def)
    ultimately show ?thesis
      using Cons.IH by (simp add: txsOfShard_update)
  qed
qed

lemma groupTxsByShard_entry:
  assumes "(s, g) \<in> set (groupTxsByShard tp txs)"
  shows "g = indexedOfShard tp s 0 txs"
proof -
  have d: "distinct (map fst (groupTxsByShard tp txs))"
    unfolding groupTxsByShard_def by (rule groupTxsByShardFrom_distinct) simp
  with assms have "map_of (groupTxsByShard tp txs) s = Some g"
    by simp
  then have "txsOfShard (groupTxsByShard tp txs) s = g"
    by (simp add: txsOfShard_def)
  moreover have "txsOfShard (groupTxsByShard tp txs) s = indexedOfShard tp s 0 txs"
    unfolding groupTxsByShard_def groupTxsByShardFrom_txsOfShard
    by (simp add: txsOfShard_def)
  ultimately show ?thesis
    by simp
qed

lemma indexedOfShard_member:
  assumes "e \<in> set (indexedOfShard tp s idx txs)"
  shows "int idx \<le> Index e \<and> Index e < int (idx + length txs)
         \<and> e = (txs ! (nat (Index e) - idx))\<lparr>Index := Index e\<rparr>
         \<and> senderShardOf tp (txs ! (nat (Index e) - idx)) = Some s"
proof -
  from assms obtain i tx where it: "(i, tx) \<in> set (enumerate idx txs)"
    and sh: "senderShardOf tp tx = Some s" and e: "e = tx\<lparr>Index := int i\<rparr>"
    by (auto simp: indexedOfShard_def)
  from it have "idx \<le> i" "i < idx + length txs" "tx = txs ! (i - idx)"
    by (auto simp: in_set_enumerate_eq)
  with sh e show ?thesis by simp
qed


lemma storeTxsHashes_sound:
  assumes "storeTxsHashes g hashes m = Some m'" and "m' k = Some h"
  shows "m k = Some h
         \<or> (\<exists>key. (key, h) \<in> set hashes \<and> 0 \<le> key \<and> key < int (length g)
                \<and> k = Index (g ! nat key))"
  using assms
proof (induction hashes arbitrary: m)
  case Nil
  then show ?case by simp
next
  case (Cons p hashes)
  obtain key hash where p: "p = (key, hash)" by (cases p)
  from Cons.prems(1) p have range: "0 \<le> key" "key < int (length g)"
    and rest: "storeTxsHashes g hashes (m(Index (g ! nat key) \<mapsto> hash)) = Some m'"
    by (simp_all split: if_splits)
  from Cons.IH [OF rest Cons.prems(2)]
  show ?case
  proof
    assume "(m(Index (g ! nat key) \<mapsto> hash)) k = Some h"
    then show ?thesis
      using range p by (cases "k = Index (g ! nat key)") auto
  next
    assume "\<exists>key. (key, h) \<in> set hashes \<and> 0 \<le> key \<and> key < int (length g)
                \<and> k = Index (g ! nat key)"
    then show ?thesis by auto
  qed
qed

lemma sendGroupToObservers_all_fail:
  assumes "\<forall>ob \<in> set observers.
             \<not> (fst (post (Address ob) g) = StatusOK \<and> fst (snd (post (Address ob) g)) = None)"
  shows "sendGroupToObservers post g observers acc = (Some acc, map Address observers)"
  using assms by (induction observers) (auto split: prod.splits)

lemma sendGroupToObservers_sound:
  assumes "sendGroupToObservers post g observers acc = (Some acc', calls)"
    and "snd acc' k = Some h"
  shows "snd acc k = Some h
         \<or> (\<exists>ob \<in> set observers. \<exists>n hashes key.
               post (Address ob) g = (StatusOK, None, n, hashes)
               \<and> (key, h) \<in> set hashes \<and> 0 \<le> key \<and> key < int (length g)
               \<and> k = Index (g ! nat key))"
  using assms
proof (induction observers arbitrary: calls)
  case Nil
  then show ?case by simp
next
  case (Cons ob observers)
  obtain respCode err n hashes where a: "post (Address ob) g = (respCode, err, n, hashes)"
    by (cases "post (Address ob) g")
  show ?case
  proof (cases "respCode = StatusOK \<and> err = None")
    case True
    with Cons.prems(1) a obtain m' where st: "storeTxsHashes g hashes (snd acc) = Some m'"
      and acc': "acc' = (fst acc + n, m')"
      by (auto split: option.splits)
    from storeTxsHashes_sound [OF st, of k h] Cons.prems(2) acc'
    have "snd acc k = Some h
         \<or> (\<exists>key. (key, h) \<in> set hashes \<and> 0 \<le> key \<and> key < int (length g)
                \<and> k = Index (g ! nat key))"
      by simp
    with a True show ?thesis by auto
  next
    case False
    with Cons.prems(1) a obtain calls' where
      "sendGroupToObservers post g observers acc = (Some acc', calls')"
      by (auto split: prod.splits)
    from Cons.IH [OF this Cons.prems(2)] show ?thesis by auto
  qed
qed

lemma sendGroups_failing_group:
  assumes "proc_GetObservers tp s = Inr observers"
    and "\<forall>ob \<in> set observers.
           \<not> (fst (proc_PostMultipleTransactions tp (Address ob) g) = StatusOK
              \<and> fst (snd (proc_PostMultipleTransactions tp (Address ob) g)) = None)"
  shows "sendGroups tp ((s, g) # groups) acc
           = (fst (sendGroups tp groups acc),
              map Address observers @ snd (sendGroups tp groups acc))"
  using assms(1)
    sendGroupToObservers_all_fail
      [where post = "proc_PostMultipleTransactions tp" and g = g and observers = observers
         and acc = acc]
    assms(2)
  by (simp split: prod.splits)

lemma fst_sendGroups_Cons:
  "fst (sendGroups tp ((s, g) # groups) acc) =
     (case proc_GetObservers tp s of
        Inl err \<Rightarrow> Returned (Inl ErrMissingObserver)
      | Inr observers \<Rightarrow>
          (case fst (sendGroupToObservers (proc_PostMultipleTransactions tp) g observers acc) of
             None \<Rightarrow> Panicked
           | Some acc' \<Rightarrow> fst (sendGroups tp groups acc')))"
  by (simp split: sum.splits prod.splits option.splits)

lemma sendGroups_without_failing_group:
  assumes "(s, g) \<in> set groups"
    and "proc_GetObservers tp s = Inr observers"
    and "\<forall>ob \<in> set observers.
           \<not> (fst (proc_PostMultipleTransactions tp (Address ob) g) = StatusOK
              \<and> fst (snd (proc_PostMultipleTransactions tp (Address ob) g)) = None)"
  shows "fst (sendGroups tp groups acc) = fst (sendGroups tp (remove1 (s, g) groups) acc)"
  using assms(1)
proof (induction groups arbitrary: acc)
  case Nil
  then show ?case by simp
next
  case (Cons p groups)
  show ?case
  proof (cases "p = (s, g)")
    case True
    then show ?thesis
      using sendGroups_failing_group [OF assms(2,3), of groups acc] by simp
  next
    case False
    with Cons.prems have mem: "(s, g) \<in> set groups" by simp
    obtain s' g' where p: "p = (s', g')" by (cases p)
    from False p have r: "remove1 (s, g) ((s', g') # groups) = (s', g') # remove1 (s, g) groups"
      by auto
    show ?thesis
      unfolding p r fst_sendGroups_Cons
      by (simp add: Cons.IH [OF mem] split: sum.splits option.splits)
  qed
qed


lemma sendGroups_sound:
  assumes "fst (sendGroups tp groups acc) = Returned (Inr r)" and "TxsHashes r k = Some h"
  shows "snd acc k = Some h
         \<or> (\<exists>s g observers ob n hashes key.
               (s, g) \<in> set groups \<and> proc_GetObservers tp s = Inr observers
               \<and> ob \<in> set observers
               \<and> proc_PostMultipleTransactions tp (Address ob) g = (StatusOK, None, n, hashes)
               \<and> (key, h) \<in> set hashes \<and> 0 \<le> key \<and> key < int (length g)
               \<and> k = Index (g ! nat key))"
  using assms(1)
proof (induction groups arbitrary: acc)
  case Nil
  with assms(2) show ?case by auto
next
  case (Cons p groups)
  obtain s g where p: "p = (s, g)" by (cases p)
  from Cons.prems p obtain observers acc' where obs: "proc_GetObservers tp s = Inr observers"
    and step: "fst (sendGroupToObservers (proc_PostMultipleTransactions tp) g observers acc)
                 = Some acc'"
    and rest: "fst (sendGroups tp groups acc') = Returned (Inr r)"
    unfolding p fst_sendGroups_Cons
    by (auto split: sum.splits option.splits)
  from step obtain calls where step':
    "sendGroupToObservers (proc_PostMultipleTransactions tp) g observers acc = (Some acc', calls)"
    by (cases "sendGroupToObservers (proc_PostMultipleTransactions tp) g observers acc") simp
  from Cons.IH [OF rest] show ?case
  proof
    assume "snd acc' k = Some h"
    from sendGroupToObservers_sound [OF step' this] show ?thesis
    proof
      assume "snd acc k = Some h"
      then show ?thesis by simp
    next
      assume "\<exists>ob \<in> set observers. \<exists>n hashes key.
               proc_PostMultipleTransactions tp (Address ob) g = (StatusOK, None, n, hashes)
               \<and> (key, h) \<in> set hashes \<and> 0 \<le> key \<and> key < int (length g)
               \<and> k = Index (g ! nat key)"
      then obtain ob n hashes key where "ob \<in> set observers"
        "proc_PostMultipleTransactions tp (Address ob) g = (StatusOK, None, n, hashes)"
        "(key, h) \<in> set hashes" "0 \<le> key" "key < int (length g)" "k = Index (g ! nat key)"
        by blast
      with obs p have "\<exists>s g observers ob n hashes key.
               (s, g) \<in> set (p # groups) \<and> proc_GetObservers tp s = Inr observers
               \<and> ob \<in> set observers
               \<and> proc_PostMultipleTransactions tp (Address ob) g = (StatusOK, None, n, hashes)
               \<and> (key, h) \<in> set hashes \<and> 0 \<le> key \<and> key < int (length g)
               \<and> k = Index (g ! nat key)"
        by (intro exI [of _ s] exI [of _ g] exI [of _ observers] exI [of _ ob] exI [of _ n]
            exI [of _ hashes] exI [of _ key]) simp
      then show ?thesis by (rule disjI2)
    qed
  next
    assume "\<exists>s g observers ob n hashes key.
               (s, g) \<in> set groups \<and> proc_GetObservers tp s = Inr observers
               \<and> ob \<in> set observers
               \<and> proc_PostMultipleTransactions tp (Address ob) g = (StatusOK, None, n, hashes)
               \<and> (key, h) \<in> set hashes \<and> 0 \<le> key \<and> key < int (length g)
               \<and> k = Index (g ! nat key)"
    then obtain s' g' observers' ob n hashes key where "(s', g') \<in> set groups"
      "proc_GetObservers tp s' = Inr observers'" "ob \<in> set observers'"
      "proc_PostMultipleTransactions tp (Address ob) g' = (StatusOK, None, n, hashes)"
      "(key, h) \<in> set hashes" "0 \<le> key" "key < int (length g')" "k = Index (g' ! nat key)"
      by blast
    then have "\<exists>s g observers ob n hashes key.
               (s, g) \<in> set (p # groups) \<and> proc_GetObservers tp s = Inr observers
               \<and> ob \<in> set observers
               \<and> proc_PostMultipleTransactions tp (Address ob) g = (StatusOK, None, n, hashes)
               \<and> (key, h) \<in> set hashes \<and> 0 \<le> key \<and> key < int (length g)
               \<and> k = Index (g ! nat key)"
      by (intro exI [of _ s'] exI [of _ g'] exI [of _ observers'] exI [of _ ob] exI [of _ n]
          exI [of _ hashes] exI [of _ key]) simp
    then show ?thesis by (rule disjI2)
  qed
qed

lemma sendGroups_all_fail:
  assumes "\<forall>(s, g) \<in> set groups. \<exists>observers. proc_GetObservers tp s = Inr observers
             \<and> (\<forall>ob \<in> set observers.
                  \<not> (fst (proc_PostMultipleTransactions tp (Address ob) g) = StatusOK
                     \<and> fst (snd (proc_PostMultipleTransactions tp (Address ob) g)) = None))"
  shows "fst (sendGroups tp groups acc) = Returned (Inr \<lparr>NumOfTxs = fst acc, TxsHashes = snd acc\<rparr>)"
  using assms
proof (induction groups)
  case Nil
  then show ?case by simp
next
  case (Cons p groups)
  obtain s g where p: "p = (s, g)" by (cases p)
  from Cons.prems p obtain observers where obs: "proc_GetObservers tp s = Inr observers"
    and fail: "\<forall>ob \<in> set observers.
                  \<not> (fst (proc_PostMultipleTransactions tp (Address ob) g) = StatusOK
                     \<and> fst (snd (proc_PostMultipleTransactions tp (Address ob) g)) = None)"
    by auto
  from Cons.prems have "fst (sendGroups tp groups acc)
      = Returned (Inr \<lparr>NumOfTxs = fst acc, TxsHashes = snd acc\<rparr>)"
    by (intro Cons.IH) simp
  then show ?case
    unfolding p sendGroups_failing_group [OF obs fail] by simp
qed


lemma rangeOrder_set:
  assumes "\<And>m. mset (rangeOrder m) = mset m"
  shows "set (rangeOrder m) = set m"
  using assms [of m] by (rule mset_eq_setD)



lemma batch_examples [simp]:
  "checkTransactionFields (exampleProcessor obs send multi marshal) invalidTx
     = Some (ErrInvalidTxFields (ErrorText ErrInvalidSenderAddress)
               (ErrorText (External ''empty address'')))"
  "checkTransactionFields (exampleProcessor obs send multi marshal) carolTx = None"
  "exampleDecode (Sender carolTx) = Inr (map of_char ''carol1'')"
  "Sender carolTx = ''carol1''" "Sender exampleTx = ''alice''"
  by (simp_all add: checkTransactionFields_def exampleTx_def invalidTx_def carolTx_def
      exampleDecode_def fromHexChar_def)



text \<open>
  C9. When every observer of the shard of one group fails (a status other than 200, or
  an error), the value \<open>SendMultipleTransactions\<close> returns is the value the other groups
  alone produce: the failure raises no error. When it returns a response, no
  transaction of the failed group has an entry in \<open>TxsHashes\<close>; and when the observers
  of every group fail it returns, with no error, zero transactions and no hashes.
\<close>

theorem SendMultipleTransactions_failing_group_is_silent:
  assumes order: "\<And>m. mset (rangeOrder m) = mset m"
    and valid: "txsToSendOf tp txs \<noteq> []"
    and group: "(s, g) \<in> set (groupTxsByShard tp (txsToSendOf tp txs))"
    and obs: "proc_GetObservers tp s = Inr observers"
    and fail: "\<forall>ob \<in> set observers.
           \<not> (fst (proc_PostMultipleTransactions tp (Address ob) g) = StatusOK
              \<and> fst (snd (proc_PostMultipleTransactions tp (Address ob) g)) = None)"
  shows "fst (SendMultipleTransactions tp rangeOrder txs)
           = fst (sendGroups tp
                   (remove1 (s, g) (rangeOrder (groupTxsByShard tp (txsToSendOf tp txs))))
                   (0, Map.empty))
     \<and> (\<forall>r. fst (SendMultipleTransactions tp rangeOrder txs) = Returned (Inr r) \<longrightarrow>
            (\<forall>t \<in> set g. TxsHashes r (Index t) = None))
     \<and> ((\<forall>(s', g') \<in> set (groupTxsByShard tp (txsToSendOf tp txs)).
            \<exists>observers'. proc_GetObservers tp s' = Inr observers'
              \<and> (\<forall>ob \<in> set observers'.
                   \<not> (fst (proc_PostMultipleTransactions tp (Address ob) g') = StatusOK
                      \<and> fst (snd (proc_PostMultipleTransactions tp (Address ob) g')) = None)))
          \<longrightarrow> fst (SendMultipleTransactions tp rangeOrder txs)
                = Returned (Inr \<lparr>NumOfTxs = 0, TxsHashes = Map.empty\<rparr>))"
proof (intro conjI allI impI ballI)
  define X where "X = txsToSendOf tp txs"
  define G where "G = rangeOrder (groupTxsByShard tp X)"
  have same: "set G = set (groupTxsByShard tp X)"
    unfolding G_def by (rule rangeOrder_set [OF order])
  have run: "fst (SendMultipleTransactions tp rangeOrder txs) = fst (sendGroups tp G (0, Map.empty))"
    using valid by (simp add: SendMultipleTransactions_def X_def G_def Let_def)
  from group same have mem: "(s, g) \<in> set G"
    by (simp add: X_def)
  show "fst (SendMultipleTransactions tp rangeOrder txs)
           = fst (sendGroups tp
                   (remove1 (s, g) (rangeOrder (groupTxsByShard tp (txsToSendOf tp txs))))
                   (0, Map.empty))"
    unfolding run using sendGroups_without_failing_group [OF mem obs fail]
    by (simp add: G_def X_def)
  {
    fix r t
    assume ret: "fst (SendMultipleTransactions tp rangeOrder txs) = Returned (Inr r)"
      and t: "t \<in> set g"
    show "TxsHashes r (Index t) = None"
    proof (rule ccontr)
      assume "TxsHashes r (Index t) \<noteq> None"
      then obtain h where h: "TxsHashes r (Index t) = Some h" by blast
      from ret run have run': "fst (sendGroups tp G (0, Map.empty)) = Returned (Inr r)"
        by simp
      from sendGroups_sound [OF run' h]
      obtain s' g' observers' ob n hashes key where
        mem': "(s', g') \<in> set G"
        and obs': "proc_GetObservers tp s' = Inr observers'" "ob \<in> set observers'"
        and ans: "proc_PostMultipleTransactions tp (Address ob) g' = (StatusOK, None, n, hashes)"
        and key: "(key, h) \<in> set hashes" "0 \<le> key" "key < int (length g')"
        and k: "Index t = Index (g' ! nat key)"
        by auto
      from mem' same have g': "g' = indexedOfShard tp s' 0 X"
        using groupTxsByShard_entry by blast
      from group have g: "g = indexedOfShard tp s 0 X"
        unfolding X_def by (rule groupTxsByShard_entry)
      from key have "g' ! nat key \<in> set g'"
        by (simp add: nat_less_iff)
      with g' have "g' ! nat key \<in> set (indexedOfShard tp s' 0 X)"
        by simp
      from indexedOfShard_member [OF this] k
      have s': "senderShardOf tp (X ! nat (Index t)) = Some s'"
        by simp
      from t g have "t \<in> set (indexedOfShard tp s 0 X)"
        by simp
      from indexedOfShard_member [OF this]
      have "senderShardOf tp (X ! nat (Index t)) = Some s"
        by simp
      with s' have "s' = s" by simp
      with g g' obs obs' have "g' = g" "ob \<in> set observers"
        by simp_all
      with fail ans show False
        by auto
    qed
  }
  {
    assume all: "\<forall>(s', g') \<in> set (groupTxsByShard tp (txsToSendOf tp txs)).
            \<exists>observers'. proc_GetObservers tp s' = Inr observers'
              \<and> (\<forall>ob \<in> set observers'.
                   \<not> (fst (proc_PostMultipleTransactions tp (Address ob) g') = StatusOK
                      \<and> fst (snd (proc_PostMultipleTransactions tp (Address ob) g')) = None))"
    then have "\<forall>(s', g') \<in> set G.
            \<exists>observers'. proc_GetObservers tp s' = Inr observers'
              \<and> (\<forall>ob \<in> set observers'.
                   \<not> (fst (proc_PostMultipleTransactions tp (Address ob) g') = StatusOK
                      \<and> fst (snd (proc_PostMultipleTransactions tp (Address ob) g')) = None))"
      unfolding same X_def .
    from sendGroups_all_fail [OF this, of "(0, Map.empty)"]
    show "fst (SendMultipleTransactions tp rangeOrder txs)
                = Returned (Inr \<lparr>NumOfTxs = 0, TxsHashes = Map.empty\<rparr>)"
      unfolding run by simp
  }
qed


theorem SendMultipleTransactions_failing_group_witness:
  "SendMultipleTransactions
      (exampleProcessor observerOfShard noSend shardOneFailing failingMarshal) (\<lambda>m. m)
      [exampleTx, carolTx]
     = (Returned (Inr \<lparr>NumOfTxs = 1, TxsHashes = [1 \<mapsto> ''hash-of-carol1'']\<rparr>),
        [''shard1-observer'', ''shard0-observer''])"
proof -
  have order: "mset ((\<lambda>m. m) m) = mset m" for m :: "(32 word \<times> Transaction list) list"
    by simp
  have groups: "groupTxsByShard
      (exampleProcessor observerOfShard noSend shardOneFailing failingMarshal)
      [exampleTx, carolTx]
        = [(1, [exampleTx\<lparr>Index := 0\<rparr>]), (0, [carolTx\<lparr>Index := 1\<rparr>])]"
    by (simp add: groupTxsByShard_def txsOfShard_def exampleShard_def exampleDecode_def)
  have valid: "txsToSendOf
      (exampleProcessor observerOfShard noSend shardOneFailing failingMarshal)
      [exampleTx, carolTx] = [exampleTx, carolTx]"
    by simp
  show ?thesis
    using SendMultipleTransactions_failing_group_is_silent
            [of "\<lambda>m. m"
                "exampleProcessor observerOfShard noSend shardOneFailing failingMarshal"
                "[exampleTx, carolTx]" 1 "[exampleTx\<lparr>Index := 0\<rparr>]"
                "[\<lparr>Address = ''shard1-observer'', ShardId = 1\<rparr>]", OF order]
    by (simp add: SendMultipleTransactions_def valid groups observerOfShard_def
        shardOneFailing_def acceptingMultiple_def)
qed

end
